theory Spec2Isabelle
  imports Complex_Main "HOL-Library.Sublist" "HOL-Library.Multiset" "HOL-Library.Log_Nat"
begin

section \<open>Data model (packages/shared: types and schemas)\<close>

text \<open>
  The enums of the shared package. JavaScript numbers that carry audio features and
  scores are modelled as exact rationals; limits and counters are integers.
\<close>

datatype EventType = PLAY | SKIP | LIKE | DISLIKE | ADD_TO_PLAYLIST

datatype Mood = CALM | HAPPY | SAD | ENERGETIC

datatype Activity = WORK | EXERCISE | RELAX | PARTY

datatype TimeBucket = MORNING | AFTERNOON | EVENING | NIGHT

text \<open>\<^verbatim>\<open>InteractionContext\<close>: three optional fields; an absent field is \<open>None\<close>.\<close>

record InteractionContext =
  mood :: "Mood option"
  activity :: "Activity option"
  timeBucket :: "TimeBucket option"

text \<open>
  \<^verbatim>\<open>AudioFeatures\<close>: every field is optional. Only the three fields the reranker reads
  are kept; the remaining nine (tempo, loudness, ...) are never read by the code below.
\<close>

record AudioFeatures =
  energy :: "rat option"
  valence :: "rat option"
  danceability :: "rat option"

text \<open>
  \<^verbatim>\<open>Track\<close>. The field \<^verbatim>\<open>id\<close> is called \<open>track_id\<close> here. The fields album, durationSec,
  externalUrl, previewUrl, embedding and createdAt are carried through the pipeline
  untouched and are left out.
\<close>

record Track =
  track_id :: string
  title :: string
  artist :: string
  genre :: string
  audioFeatures :: "AudioFeatures option"

section \<open>RecommendationsService: artist diversity\<close>

text \<open>
  \<^verbatim>\<open>getConsecutiveArtistCount(tracks, artist)\<close> walks the list from its last element
  towards the first and counts until the first track by another artist.
  \<open>countFromEnd\<close> is that loop on the reversed list.
\<close>

fun countFromEnd :: "string \<Rightarrow> Track list \<Rightarrow> nat" where
  "countFromEnd a [] = 0"
| "countFromEnd a (t # ts) = (if artist t = a then Suc (countFromEnd a ts) else 0)"

definition getConsecutiveArtistCount :: "Track list \<Rightarrow> string \<Rightarrow> nat" where
  "getConsecutiveArtistCount tracks a = countFromEnd a (rev tracks)"

definition MAX_SAME_ARTIST_CONSECUTIVE :: nat where
  "MAX_SAME_ARTIST_CONSECUTIVE = 3"

text \<open>
  \<^verbatim>\<open>applyDiversityRules\<close>: the \<^verbatim>\<open>for\<close> loop over the input with the accumulator
  \<^verbatim>\<open>result\<close>. (The \<^verbatim>\<open>artistCount\<close> map of the source is written and never read.)
\<close>

fun diversityLoop :: "Track list \<Rightarrow> Track list \<Rightarrow> Track list" where
  "diversityLoop result [] = result"
| "diversityLoop result (t # ts) =
     (if getConsecutiveArtistCount result (artist t) < MAX_SAME_ARTIST_CONSECUTIVE
      then diversityLoop (result @ [t]) ts
      else diversityLoop result ts)"

definition applyDiversityRules :: "Track list \<Rightarrow> Track list" where
  "applyDiversityRules tracks = diversityLoop [] tracks"

text \<open>A run of four consecutive tracks by one artist starting at index \<open>i\<close>.\<close>

definition run4_at :: "Track list \<Rightarrow> nat \<Rightarrow> bool" where
  "run4_at xs i =
     (i + 3 < length xs \<and>
      artist (xs ! i) = artist (xs ! (i + 1)) \<and>
      artist (xs ! (i + 1)) = artist (xs ! (i + 2)) \<and>
      artist (xs ! (i + 2)) = artist (xs ! (i + 3)))"

definition mkTrack :: "string \<Rightarrow> string \<Rightarrow> string \<Rightarrow> AudioFeatures option \<Rightarrow> Track" where
  "mkTrack i a g af = \<lparr>track_id = i, title = i, artist = a, genre = g, audioFeatures = af\<rparr>"


section \<open>JavaScript helpers\<close>

text \<open>
  A JavaScript number: a finite value (the rational the double stands for), \<^verbatim>\<open>NaN\<close>,
  or one of the infinities.
\<close>

datatype jsnum = JNum rat | JNaN | JPosInf | JNegInf

fun isFinite :: "jsnum \<Rightarrow> bool" where
  "isFinite (JNum x) = True"
| "isFinite JNaN = False"
| "isFinite JPosInf = False"
| "isFinite JNegInf = False"

text \<open>
  White space. A character is a code unit below 256, so the list holds the ECMAScript
  white space and line terminators of that range (tab, line feed, vertical tab, form
  feed, carriage return, space, no-break space); those beyond it cannot occur.
\<close>

definition isWs :: "char \<Rightarrow> bool" where
  "isWs c = (c = CHR '' '' \<or> c = CHR 0x09 \<or> c = CHR 0x0A \<or> c = CHR 0x0B \<or> c = CHR 0x0C
             \<or> c = CHR 0x0D \<or> c = CHR 0xA0)"

definition isDigit :: "char \<Rightarrow> bool" where
  "isDigit c = (48 \<le> (of_char c :: nat) \<and> (of_char c :: nat) \<le> 57)"

definition digitVal :: "char \<Rightarrow> nat" where
  "digitVal c = of_char c - 48"

definition digitsValue :: "string \<Rightarrow> nat" where
  "digitsValue ds = foldl (\<lambda>acc c. acc * 10 + digitVal c) 0 ds"

definition trimStart :: "string \<Rightarrow> string" where
  "trimStart s = dropWhile isWs s"

definition trim :: "string \<Rightarrow> string" where
  "trim s = rev (dropWhile isWs (rev (dropWhile isWs s)))"

text \<open>An optional sign in front of a numeric literal: (is it negative, the rest).\<close>

fun takeSign :: "string \<Rightarrow> bool \<times> string" where
  "takeSign [] = (False, [])"
| "takeSign (c # r) =
     (if c = CHR ''-'' then (True, r) else if c = CHR ''+'' then (False, r) else (False, c # r))"

text \<open>
  \<^verbatim>\<open>parseInt(s, 10)\<close>: leading white space, an optional sign, then the longest run of
  decimal digits; \<open>None\<close> is \<^verbatim>\<open>NaN\<close>.
\<close>

definition parseInt10 :: "string \<Rightarrow> int option" where
  "parseInt10 s =
     (let (neg, r) = takeSign (trimStart s);
          ds = takeWhile isDigit r
      in if ds = [] then None
         else Some (if neg then - int (digitsValue ds) else int (digitsValue ds)))"

text \<open>
  Doubles. A finite double is a rational \<open>n * 2^(e - 52)\<close> with \<open>|n| < 2^53\<close> and
  \<open>-1022 \<le> e \<le> 1023\<close>. \<open>roundDouble\<close> rounds a rational to the nearest such number
  with the exponent unbounded above, ties to the even \<open>n\<close>; below \<open>2^-1022\<close> the spacing
  stays \<open>2^-1074\<close> (the subnormal numbers), so a magnitude up to \<open>2^-1075\<close> rounds to 0.
\<close>

definition pow2 :: "int \<Rightarrow> rat" where
  "pow2 e = (if 0 \<le> e then 2 ^ nat e else 1 / 2 ^ nat (- e))"

text \<open>For \<open>a > 0\<close>, the exponent \<open>e\<close> with \<open>2^e \<le> a < 2^(e+1)\<close>.\<close>

definition binaryExponent :: "rat \<Rightarrow> int" where
  "binaryExponent a =
     (let (p, q) = quotient_of a;
          d = int (floorlog 2 (nat p)) - int (floorlog 2 (nat q))
      in if pow2 d \<le> a then d else d - 1)"

definition roundHalfEven :: "rat \<Rightarrow> int" where
  "roundHalfEven m =
     (let f = \<lfloor>m\<rfloor>; r = m - of_int f
      in if r < 1 / 2 then f else if 1 / 2 < r then f + 1 else if even f then f else f + 1)"

definition roundDouble :: "rat \<Rightarrow> rat" where
  "roundDouble x =
     (if x = 0 then 0
      else
        (let a = \<bar>x\<bar>;
             e = max (binaryExponent a) (- 1022);
             u = pow2 (e - 52);
             n = roundHalfEven (a / u)
         in (if x < 0 then - 1 else 1) * of_int n * u))"

text \<open>The double a real result is stored as: a rounded magnitude of \<open>2^1024\<close> is infinite.\<close>

definition toDouble :: "rat \<Rightarrow> jsnum" where
  "toDouble x =
     (let r = roundDouble x
      in if 2 ^ 1024 \<le> r then JPosInf else if r \<le> - (2 ^ 1024) then JNegInf else JNum r)"

text \<open>
  Addition, subtraction, multiplication and division of finite doubles whose result is
  finite (the scores computed below stay far from the largest double).
\<close>

definition fadd :: "rat \<Rightarrow> rat \<Rightarrow> rat" where
  "fadd a b = roundDouble (a + b)"

definition fsub :: "rat \<Rightarrow> rat \<Rightarrow> rat" where
  "fsub a b = roundDouble (a - b)"

definition fmul :: "rat \<Rightarrow> rat \<Rightarrow> rat" where
  "fmul a b = roundDouble (a * b)"

definition fdiv :: "rat \<Rightarrow> rat \<Rightarrow> rat" where
  "fdiv a b = roundDouble (a / b)"

definition pow10 :: "int \<Rightarrow> rat" where
  "pow10 e = (if 0 \<le> e then 10 ^ nat e else 1 / 10 ^ nat (- e))"

text \<open>
  The exponent part of a decimal literal and what follows it; without digits there is
  no exponent part and nothing is consumed.
\<close>

definition exponentPart :: "string \<Rightarrow> int \<times> string" where
  "exponentPart r =
     (case r of
        [] \<Rightarrow> (0, [])
      | c # r1 \<Rightarrow>
          if c = CHR ''e'' \<or> c = CHR ''E'' then
            (let (neg, r2) = takeSign r1; ds = takeWhile isDigit r2
             in if ds = [] then (0, r)
                else (if neg then - int (digitsValue ds) else int (digitsValue ds),
                      dropWhile isDigit r2))
          else (0, r))"

text \<open>
  The longest prefix that is a signed decimal literal (\<^verbatim>\<open>Infinity\<close> included): its
  value and the rest of the string; \<^verbatim>\<open>NaN\<close> when there is no such prefix.
\<close>

definition scanDecimal :: "string \<Rightarrow> jsnum \<times> string" where
  "scanDecimal s =
     (let (neg, r) = takeSign s
      in if prefix ''Infinity'' r then (if neg then JNegInf else JPosInf, drop 8 r)
         else
           (let ip = takeWhile isDigit r;
                r1 = dropWhile isDigit r;
                (fp, r2) =
                  (case r1 of
                     [] \<Rightarrow> ([], [])
                   | c # r' \<Rightarrow>
                       if c = CHR ''.'' then (takeWhile isDigit r', dropWhile isDigit r')
                       else ([], r1))
            in if ip = [] \<and> fp = [] then (JNaN, s)
               else
                 (let (e, r3) = exponentPart r2;
                      m = (of_nat (digitsValue ip) + of_nat (digitsValue fp) / 10 ^ length fp)
                          * pow10 e
                  in (toDouble (if neg then - m else m), r3))))"

text \<open>\<^verbatim>\<open>parseFloat(s)\<close>: leading white space is skipped, what follows the literal is ignored.\<close>

definition parseFloat :: "string \<Rightarrow> jsnum" where
  "parseFloat s = fst (scanDecimal (trimStart s))"

text \<open>Literals with a radix prefix (\<^verbatim>\<open>0x\<close>, \<^verbatim>\<open>0o\<close>, \<^verbatim>\<open>0b\<close>), which \<^verbatim>\<open>Number\<close> reads.\<close>

definition hexVal :: "char \<Rightarrow> nat option" where
  "hexVal c =
     (let n = (of_char c :: nat)
      in if 48 \<le> n \<and> n \<le> 57 then Some (n - 48)
         else if 97 \<le> n \<and> n \<le> 102 then Some (n - 87)
         else if 65 \<le> n \<and> n \<le> 70 then Some (n - 55)
         else None)"

fun radixValue :: "nat \<Rightarrow> nat \<Rightarrow> string \<Rightarrow> nat option" where
  "radixValue base acc [] = Some acc"
| "radixValue base acc (c # cs) =
     (case hexVal c of
        None \<Rightarrow> None
      | Some d \<Rightarrow> if d < base then radixValue base (acc * base + d) cs else None)"

definition radixLiteral :: "string \<Rightarrow> nat option" where
  "radixLiteral t =
     (case t of
        z # x # d # ds \<Rightarrow>
          if z \<noteq> CHR ''0'' then None
          else if x = CHR ''x'' \<or> x = CHR ''X'' then radixValue 16 0 (d # ds)
          else if x = CHR ''o'' \<or> x = CHR ''O'' then radixValue 8 0 (d # ds)
          else if x = CHR ''b'' \<or> x = CHR ''B'' then radixValue 2 0 (d # ds)
          else None
      | _ \<Rightarrow> None)"

text \<open>
  A JavaScript value as far as \<^verbatim>\<open>Number(v)\<close> tells values apart (objects and nested
  arrays are left out).
\<close>

datatype jsval = VNum jsnum | VStr string | VNull | VUndefined | VBool bool

text \<open>
  \<^verbatim>\<open>Number(s)\<close> of a string: white space around is dropped, the empty string is 0, and
  the whole rest has to be one numeric literal.
\<close>

definition stringToNumber :: "string \<Rightarrow> jsnum" where
  "stringToNumber s =
     (let t = trim s
      in if t = [] then JNum 0
         else
           (case radixLiteral t of
              Some n \<Rightarrow> toDouble (of_nat n)
            | None \<Rightarrow> (let (v, rest) = scanDecimal t in if rest = [] then v else JNaN)))"

fun toNumber :: "jsval \<Rightarrow> jsnum" where
  "toNumber (VNum n) = n"
| "toNumber (VStr s) = stringToNumber s"
| "toNumber VNull = JNum 0"
| "toNumber VUndefined = JNaN"
| "toNumber (VBool b) = (if b then JNum 1 else JNum 0)"

text \<open>\<^verbatim>\<open>s.split(c)\<close> for a one-character separator.\<close>

fun splitOn :: "char \<Rightarrow> string \<Rightarrow> string list" where
  "splitOn c [] = [[]]"
| "splitOn c (x # xs) =
     (if x = c then [] # splitOn c xs
      else (case splitOn c xs of [] \<Rightarrow> [[x]] | p # ps \<Rightarrow> (x # p) # ps))"

fun joinWith :: "string \<Rightarrow> string list \<Rightarrow> string" where
  "joinWith sep [] = []"
| "joinWith sep [x] = x"
| "joinWith sep (x # y # ys) = x @ sep @ joinWith sep (y # ys)"

text \<open>\<^verbatim>\<open>xs.slice(0, n)\<close>: a negative \<open>n\<close> counts from the end.\<close>

definition slice0 :: "'a list \<Rightarrow> int \<Rightarrow> 'a list" where
  "slice0 xs n = (if n < 0 then take (length xs - nat (- n)) xs else take (nat n) xs)"

text \<open>
  \<^verbatim>\<open>xs.sort(cmp)\<close>: a stable sort. An element goes in front of the first element of
  the sorted rest that it does not have to follow.
\<close>

fun insertBy :: "('a \<Rightarrow> 'a \<Rightarrow> rat) \<Rightarrow> 'a \<Rightarrow> 'a list \<Rightarrow> 'a list" where
  "insertBy cmp x [] = [x]"
| "insertBy cmp x (y # ys) = (if cmp x y \<le> 0 then x # y # ys else y # insertBy cmp x ys)"

definition sortBy :: "('a \<Rightarrow> 'a \<Rightarrow> rat) \<Rightarrow> 'a list \<Rightarrow> 'a list" where
  "sortBy cmp xs = foldr (insertBy cmp) xs []"

text \<open>
  A \<^verbatim>\<open>Map\<close> as an association list in insertion order: setting a key that is
  there keeps its place.
\<close>

fun mapSet :: "('k \<times> 'v) list \<Rightarrow> 'k \<Rightarrow> 'v \<Rightarrow> ('k \<times> 'v) list" where
  "mapSet [] k v = [(k, v)]"
| "mapSet ((k', v') # m) k v = (if k' = k then (k, v) # m else (k', v') # mapSet m k v)"

text \<open>Errors a call can throw.\<close>

datatype error = ZodError | DbError | RedisError | SocketError

definition andThen :: "error + 'a \<Rightarrow> ('a \<Rightarrow> error + 'b) \<Rightarrow> error + 'b" where
  "andThen r f = (case r of Inl e \<Rightarrow> Inl e | Inr x \<Rightarrow> f x)"


section \<open>UsersService\<close>

text \<open>
  What the driver hands over for the column \<^verbatim>\<open>profile_embedding\<close>, whose type in the
  code is \<^verbatim>\<open>any\<close>: \<^verbatim>\<open>null\<close>, a string, an array, or any other value.
\<close>

datatype dbvalue = DbNull | DbString string | DbArray "jsval list" | DbOther

definition stripOpen :: "string \<Rightarrow> string" where
  "stripOpen s = (case s of [] \<Rightarrow> [] | c # r \<Rightarrow> if c = CHR ''['' then r else s)"

definition stripClose :: "string \<Rightarrow> string" where
  "stripClose s = (if s \<noteq> [] \<and> last s = CHR '']'' then butlast s else s)"

text \<open>The comma-separated parts of a stored vector, each parsed by \<^verbatim>\<open>parseFloat\<close>.\<close>

definition vectorParts :: "string \<Rightarrow> jsnum list" where
  "vectorParts inner = map (\<lambda>p. parseFloat (trim p)) (splitOn (CHR '','') inner)"

text \<open>
  \<^verbatim>\<open>parseVector(value)\<close>. The empty string is falsy and gives \<^verbatim>\<open>undefined\<close> at the
  first test; an array is mapped through \<^verbatim>\<open>Number\<close>, entry by entry, and not filtered.
\<close>

fun parseVector :: "dbvalue \<Rightarrow> jsnum list option" where
  "parseVector DbNull = None"
| "parseVector (DbArray xs) = Some (map toNumber xs)"
| "parseVector DbOther = None"
| "parseVector (DbString s) =
     (if s = [] then None
      else
        (let trimmed = trim s;
             inner = stripClose (stripOpen trimmed)
         in if inner = [] then None
            else
              (let parts = vectorParts inner;
                   nums = filter isFinite parts
               in if nums = [] then None else Some nums)))"

text \<open>A row of \<^verbatim>\<open>user_profiles\<close>; the genre columns may be \<^verbatim>\<open>null\<close>.\<close>

record ProfileRow =
  external_user_id :: string
  preferred_genres :: "string list option"
  disliked_genres :: "string list option"
  profile_embedding :: dbvalue

record UserProfile =
  externalUserId :: string
  preferredGenres :: "string list"
  dislikedGenres :: "string list"
  profileEmbedding :: "jsnum list option"

definition orEmpty :: "string list option \<Rightarrow> string list" where
  "orEmpty v = (case v of None \<Rightarrow> [] | Some xs \<Rightarrow> xs)"

text \<open>
  \<^verbatim>\<open>findOrCreateProfile\<close>, given the outcome of the \<^verbatim>\<open>SELECT\<close> and (when no row was
  found) of the \<^verbatim>\<open>INSERT ... RETURNING\<close>. The created profile has no embedding field.
\<close>

definition findOrCreateProfile ::
  "error + ProfileRow option \<Rightarrow> error + ProfileRow \<Rightarrow> error + UserProfile" where
  "findOrCreateProfile selected inserted =
     (case selected of
        Inl e \<Rightarrow> Inl e
      | Inr (Some existing) \<Rightarrow>
          Inr \<lparr>externalUserId = external_user_id existing,
               preferredGenres = orEmpty (preferred_genres existing),
               dislikedGenres = orEmpty (disliked_genres existing),
               profileEmbedding = parseVector (profile_embedding existing)\<rparr>
      | Inr None \<Rightarrow>
          (case inserted of
             Inl e \<Rightarrow> Inl e
           | Inr newProfile \<Rightarrow>
               Inr \<lparr>externalUserId = external_user_id newProfile,
                    preferredGenres = orEmpty (preferred_genres newProfile),
                    dislikedGenres = orEmpty (disliked_genres newProfile),
                    profileEmbedding = None\<rparr>))"

text \<open>
  \<^verbatim>\<open>updatePreferences\<close>, given the outcome of the \<^verbatim>\<open>UPDATE ... RETURNING\<close> and of the
  queries of \<^verbatim>\<open>findOrCreateProfile\<close>, which runs when no row was updated.
\<close>

definition updatePreferences ::
  "error + ProfileRow option \<Rightarrow> error + ProfileRow option \<Rightarrow> error + ProfileRow
   \<Rightarrow> error + UserProfile" where
  "updatePreferences updatedRow selected inserted =
     (case updatedRow of
        Inl e \<Rightarrow> Inl e
      | Inr None \<Rightarrow> findOrCreateProfile selected inserted
      | Inr (Some updated) \<Rightarrow>
          Inr \<lparr>externalUserId = external_user_id updated,
               preferredGenres = orEmpty (preferred_genres updated),
               dislikedGenres = orEmpty (disliked_genres updated),
               profileEmbedding = parseVector (profile_embedding updated)\<rparr>)"

section \<open>InterestGraphService\<close>

text \<open>
  A row of the interaction query joined with the track's artist and genre (either may
  be \<^verbatim>\<open>null\<close>).
\<close>

record IgRow =
  ig_event :: EventType
  ig_artist :: "string option"
  ig_genre :: "string option"

text \<open>The table \<^verbatim>\<open>weights\<close>; an event type that is not in it weighs 0.\<close>

fun weights :: "EventType \<Rightarrow> rat" where
  "weights LIKE = 2"
| "weights PLAY = 1"
| "weights SKIP = - 1"
| "weights DISLIKE = - 2"
| "weights ADD_TO_PLAYLIST = 0"

definition getOr0 :: "(string \<times> rat) list \<Rightarrow> string \<Rightarrow> rat" where
  "getOr0 m k = (case map_of m k of None \<Rightarrow> 0 | Some v \<Rightarrow> v)"

text \<open>One step of the accumulation on one axis: a missing or empty name adds nothing.\<close>

definition addScore :: "(string \<times> rat) list \<Rightarrow> string option \<Rightarrow> rat \<Rightarrow> (string \<times> rat) list" where
  "addScore m name w =
     (case name of
        None \<Rightarrow> m
      | Some k \<Rightarrow> if k = [] then m else mapSet m k (getOr0 m k + w))"

fun accumulate ::
  "(string \<times> rat) list \<times> (string \<times> rat) list \<Rightarrow> IgRow list
   \<Rightarrow> (string \<times> rat) list \<times> (string \<times> rat) list" where
  "accumulate (artistScore, genreScore) [] = (artistScore, genreScore)"
| "accumulate (artistScore, genreScore) (r # rows) =
     accumulate (addScore artistScore (ig_artist r) (weights (ig_event r)),
                 addScore genreScore (ig_genre r) (weights (ig_event r))) rows"

text \<open>
  \<^verbatim>\<open>Number(x.toFixed(4))\<close>: the decimal with four digits nearest to the double \<open>x\<close> (of
  two, the larger in magnitude), read back as a double.
\<close>

definition toFixed4 :: "rat \<Rightarrow> rat" where
  "toFixed4 x =
     roundDouble
       (if x < 0 then - (of_int \<lfloor>- x * 10000 + 1 / 2\<rfloor> / 10000)
        else of_int \<lfloor>x * 10000 + 1 / 2\<rfloor> / 10000)"

definition maxOf :: "rat list \<Rightarrow> rat" where
  "maxOf vs = (case vs of [] \<Rightarrow> 0 | v # rest \<Rightarrow> foldl max v rest)"

text \<open>
  The own keys of an object come in this order: first the keys that are array indices
  (canonical numeric strings below \<open>2^32 - 1\<close>), ascending, then the other strings in
  the order of their insertion.
\<close>

definition arrayIndex :: "string \<Rightarrow> nat option" where
  "arrayIndex k =
     (if k \<noteq> [] \<and> list_all isDigit k \<and> (k = ''0'' \<or> hd k \<noteq> CHR ''0'')
         \<and> digitsValue k < 2 ^ 32 - 1
      then Some (digitsValue k) else None)"

definition goesBefore :: "string \<Rightarrow> string \<Rightarrow> bool" where
  "goesBefore k k' =
     (case arrayIndex k of
        None \<Rightarrow> False
      | Some i \<Rightarrow> (case arrayIndex k' of None \<Rightarrow> True | Some j \<Rightarrow> i < j))"

text \<open>\<^verbatim>\<open>out[key] = v\<close> on an object kept in the order of its keys.\<close>

fun objSet :: "(string \<times> 'v) list \<Rightarrow> string \<Rightarrow> 'v \<Rightarrow> (string \<times> 'v) list" where
  "objSet [] k v = [(k, v)]"
| "objSet ((k', v') # m) k v =
     (if k' = k then (k, v) # m
      else if goesBefore k k' then (k, v) # (k', v') # m
      else (k', v') # objSet m k v)"

text \<open>
  \<^verbatim>\<open>normalizeTop(map, k)\<close>. The scores are sums of the integer weights, so they are
  finite and exact, and the \<^verbatim>\<open>Number.isFinite\<close> filter keeps every entry.
\<close>

definition normalizeTop :: "(string \<times> rat) list \<Rightarrow> nat \<Rightarrow> (string \<times> rat) list" where
  "normalizeTop m k =
     (let sorted = take k (sortBy (\<lambda>a b. snd b - snd a) m);
          mx = maxOf (map snd sorted)
      in foldl (\<lambda>out (key, val). objSet out key (if mx \<le> 0 then 0 else toFixed4 (fdiv val mx)))
           [] sorted)"

record InterestGraph =
  ig_version :: nat
  generatedBy :: string
  windowDays :: nat
  topArtists :: "(string \<times> rat) list"
  topGenres :: "(string \<times> rat) list"
  avoidArtists :: "(string \<times> rat) list"
  avoidGenres :: "(string \<times> rat) list"

text \<open>The entries with a negative score, with their absolute values.\<close>

definition negatives :: "(string \<times> rat) list \<Rightarrow> (string \<times> rat) list" where
  "negatives m = map (\<lambda>(k, v). (k, \<bar>v\<bar>)) (filter (\<lambda>(k, v). v < 0) m)"

text \<open>\<^verbatim>\<open>compute\<close>, given the rows of its query (the field \<^verbatim>\<open>updatedAt\<close> is left out).\<close>

definition compute :: "IgRow list \<Rightarrow> InterestGraph option" where
  "compute rows =
     (if rows = [] then None
      else
        (let (artistScore, genreScore) = accumulate ([], []) rows
         in Some \<lparr>ig_version = 1, generatedBy = ''heuristic'', windowDays = 90,
                  topArtists = normalizeTop artistScore 20,
                  topGenres = normalizeTop genreScore 20,
                  avoidArtists = normalizeTop (negatives artistScore) 20,
                  avoidGenres = normalizeTop (negatives genreScore) 20\<rparr>))"

text \<open>
  \<^verbatim>\<open>getOrCompute\<close>, given the stored graph (if any), the rows of the interaction query
  and the outcome of the upsert.
\<close>

definition getOrCompute ::
  "error + InterestGraph option \<Rightarrow> error + IgRow list \<Rightarrow> error + unit
   \<Rightarrow> error + InterestGraph option" where
  "getOrCompute existing rows upsert =
     andThen existing (\<lambda>ex.
       case ex of
         Some g \<Rightarrow> Inr (Some g)
       | None \<Rightarrow>
           andThen rows (\<lambda>rs.
             case compute rs of
               None \<Rightarrow> Inr None
             | Some computed \<Rightarrow> andThen upsert (\<lambda>_. Inr (Some computed))))"

section \<open>RecommendationsService: context rerank, filters, ML rerank\<close>

text \<open>
  One \<^verbatim>\<open>if (context.x === 'X' && a.audioFeatures?.f) score += g(f)\<close> of the comparator:
  the guard \<^verbatim>\<open>a.audioFeatures?.f\<close> is a truthiness test, so it fails when the bag or the
  field is missing and also when the field is 0; then the score stays as it is.
\<close>

definition featureOf :: "Track \<Rightarrow> (AudioFeatures \<Rightarrow> rat option) \<Rightarrow> rat option" where
  "featureOf t f = (case audioFeatures t of None \<Rightarrow> None | Some af \<Rightarrow> f af)"

definition contribution :: "bool \<Rightarrow> rat option \<Rightarrow> (rat \<Rightarrow> rat) \<Rightarrow> rat \<Rightarrow> rat" where
  "contribution cond feature g score =
     (case feature of
        None \<Rightarrow> score
      | Some x \<Rightarrow> if cond \<and> x \<noteq> 0 then fadd score (g x) else score)"

text \<open>
  The score the comparator of \<^verbatim>\<open>rankByContext\<close> computes for one track: the seven
  statements in their order, in double arithmetic, from 0.
\<close>

definition contextScore :: "InteractionContext \<Rightarrow> Track \<Rightarrow> rat" where
  "contextScore c t =
     foldl (\<lambda>score step. step score) 0
       [contribution (activity c = Some EXERCISE) (featureOf t energy) (\<lambda>x. fmul x 10),
        contribution (mood c = Some CALM) (featureOf t energy) (\<lambda>x. fmul (fsub 1 x) 10),
        contribution (mood c = Some ENERGETIC) (featureOf t energy) (\<lambda>x. fmul x 10),
        contribution (mood c = Some HAPPY) (featureOf t valence) (\<lambda>x. fmul x 10),
        contribution (mood c = Some SAD) (featureOf t valence) (\<lambda>x. fmul (fsub 1 x) 10),
        contribution (activity c = Some RELAX) (featureOf t energy) (\<lambda>x. fmul (fsub 1 x) 8),
        contribution (activity c = Some PARTY) (featureOf t danceability) (\<lambda>x. fmul x 10)]"

text \<open>
  \<^verbatim>\<open>tracks.sort((a, b) => ... return scoreB - scoreA)\<close>. The difference of two doubles
  has the sign of their exact difference.
\<close>

definition rankByContext :: "Track list \<Rightarrow> InteractionContext \<Rightarrow> Track list" where
  "rankByContext tracks c = sortBy (\<lambda>a b. contextScore c b - contextScore c a) tracks"

text \<open>
  The score as the specification words it: a missing bag or field contributes 0, a
  field that is present contributes its term, also when its value is 0.
\<close>

definition specContribution :: "bool \<Rightarrow> rat option \<Rightarrow> (rat \<Rightarrow> rat) \<Rightarrow> rat" where
  "specContribution cond feature g =
     (case feature of
        None \<Rightarrow> 0
      | Some x \<Rightarrow> if cond then g x else 0)"

definition specScore :: "InteractionContext \<Rightarrow> Track \<Rightarrow> rat" where
  "specScore c t =
     specContribution (activity c = Some EXERCISE) (featureOf t energy) (\<lambda>x. 10 * x)
     + specContribution (activity c = Some RELAX) (featureOf t energy) (\<lambda>x. 8 * (1 - x))
     + specContribution (activity c = Some PARTY) (featureOf t danceability) (\<lambda>x. 10 * x)
     + specContribution (mood c = Some CALM) (featureOf t energy) (\<lambda>x. 10 * (1 - x))
     + specContribution (mood c = Some ENERGETIC) (featureOf t energy) (\<lambda>x. 10 * x)
     + specContribution (mood c = Some HAPPY) (featureOf t valence) (\<lambda>x. 10 * x)
     + specContribution (mood c = Some SAD) (featureOf t valence) (\<lambda>x. 10 * (1 - x))"

definition specRank :: "Track list \<Rightarrow> InteractionContext \<Rightarrow> Track list" where
  "specRank tracks c = sortBy (\<lambda>a b. specScore c b - specScore c a) tracks"

text \<open>
  \<^verbatim>\<open>applyInterestGraphFilters\<close>: a track goes when the avoid map holds a number of at
  least 0.6 (the double of that literal) under its artist, or under its genre.
\<close>

definition AVOID_THRESHOLD :: rat where
  "AVOID_THRESHOLD = roundDouble (6 / 10)"

definition strongAvoid :: "(string \<times> rat) list \<Rightarrow> string \<Rightarrow> bool" where
  "strongAvoid m k = (case map_of m k of None \<Rightarrow> False | Some a \<Rightarrow> AVOID_THRESHOLD \<le> a)"

definition keptByGraph :: "InterestGraph \<Rightarrow> Track \<Rightarrow> bool" where
  "keptByGraph g t =
     (if strongAvoid (avoidArtists g) (artist t) then False
      else if strongAvoid (avoidGenres g) (genre t) then False
      else True)"

definition applyInterestGraphFilters :: "Track list \<Rightarrow> InterestGraph \<Rightarrow> Track list" where
  "applyInterestGraphFilters tracks g = filter (keptByGraph g) tracks"

record RerankResult =
  rr_trackId :: string
  rr_score :: rat

text \<open>
  \<^verbatim>\<open>new Map(tracks.map((t) => [t.id, t]))\<close> and its \<^verbatim>\<open>get\<close>: of several tracks with one
  id the last one is the value.
\<close>

definition trackById :: "Track list \<Rightarrow> string \<Rightarrow> Track option" where
  "trackById tracks i = find (\<lambda>t. track_id t = i) (rev tracks)"

text \<open>The first loop of \<^verbatim>\<open>reorderTracksByRerank\<close>, with \<open>ordered\<close> and \<open>seen\<close>.\<close>

fun rerankLoop ::
  "Track list \<Rightarrow> RerankResult list \<Rightarrow> Track list \<times> string list \<Rightarrow> Track list \<times> string list" where
  "rerankLoop tracks [] (ordered, seen) = (ordered, seen)"
| "rerankLoop tracks (item # items) (ordered, seen) =
     (case trackById tracks (rr_trackId item) of
        None \<Rightarrow> rerankLoop tracks items (ordered, seen)
      | Some t \<Rightarrow>
          if track_id t \<notin> set seen
          then rerankLoop tracks items (ordered @ [t], seen @ [track_id t])
          else rerankLoop tracks items (ordered, seen))"

definition reorderTracksByRerank :: "Track list \<Rightarrow> RerankResult list \<Rightarrow> Track list" where
  "reorderTracksByRerank tracks reranked =
     (let (ordered, seen) = rerankLoop tracks reranked ([], [])
      in ordered @ filter (\<lambda>t. track_id t \<notin> set seen) tracks)"

text \<open>\<^verbatim>\<open>if (reranked?.length) tracks = this.reorderTracksByRerank(tracks, reranked)\<close>.\<close>

definition rerankStep :: "Track list \<Rightarrow> RerankResult list option \<Rightarrow> Track list" where
  "rerankStep tracks reranked =
     (case reranked of
        None \<Rightarrow> tracks
      | Some r \<Rightarrow> if r = [] then tracks else reorderTracksByRerank tracks r)"

section \<open>The environment and the state\<close>

text \<open>
  The repository holds \<^verbatim>\<open>RecommendationsService\<close> twice: in
  \<^verbatim>\<open>apps/api/src/recommendations/recommendations.service.ts\<close>, and in
  \<^verbatim>\<open>unnamed/part_005\<close> with the markers of a merge that was not resolved. The two sides
  of that merge differ in \<^verbatim>\<open>personalizedRecommendations\<close> only: the side \<^verbatim>\<open>HEAD\<close> has
  the disliked-genre filter, the interest-graph filter and the ML reranker; the other
  side has none of them and is the first file.
\<close>

datatype ServiceVariant = HeadSide | IncomingSide

text \<open>
  Everything the services await from outside: the outcomes of the SQL queries (the rows,
  or the error thrown), whether a cache or socket call throws, the reply of the ML
  service (\<^verbatim>\<open>rerank\<close> catches its own errors and returns \<^verbatim>\<open>null\<close>), the environment
  switch of the interest graph, and the clock; and which of the two variants of
  \<^verbatim>\<open>RecommendationsService\<close> runs.
\<close>

record Env =
  redis_get_fails :: bool
  redis_set_fails :: bool
  redis_flush_fails :: bool
  emit_fails :: bool
  q_profile_first :: "error + ProfileRow option"
  q_profile_insert :: "error + ProfileRow"
  q_stats_total :: "error + nat"
  q_popular_by_genre :: "string list \<Rightarrow> int \<Rightarrow> error + Track list"
  q_popular_global :: "int \<Rightarrow> error + Track list"
  q_update_embedding :: "error + unit"
  q_recent_skips :: "error + string list"
  q_profile_second :: "error + ProfileRow option"
  q_ann :: "jsnum list \<Rightarrow> string list \<Rightarrow> int \<Rightarrow> error + Track list"
  q_genre_based :: "string list \<Rightarrow> string list \<Rightarrow> int \<Rightarrow> error + Track list"
  ig_enabled :: bool
  q_graph_row :: "error + InterestGraph option"
  q_ig_rows :: "error + IgRow list"
  q_graph_upsert :: "error + unit"
  q_recent_sequence :: "error + string list"
  ml_rerank :: "string list \<Rightarrow> RerankResult list option"
  q_insert_fails :: bool
  q_count_fails :: bool
  now_insert :: rat
  now_count :: rat
  clock :: int
  service_variant :: ServiceVariant

record RecommendationRequest =
  req_context :: "InteractionContext option"
  req_limit :: "int option"

record RecommendationResponse =
  resp_tracks :: "Track list"
  resp_context :: "InteractionContext option"
  generatedAt :: int

datatype RefreshReason = skip_detected | context_change | manual_refresh

record RecommendationUpdateEvent =
  ev_tracks :: "Track list"
  ev_reason :: RefreshReason

datatype GatewayLog = SentRefresh string RefreshReason | FailedRefresh string error

record InteractionRow =
  ir_user :: string
  ir_track :: string
  ir_event :: EventType
  ir_created_at :: rat

text \<open>
  The state the modelled calls change: the table \<^verbatim>\<open>interactions\<close>, the cache (key and
  stored response, latest first), what the gateway emitted (room, event), and what it
  logged. \<open>refresh_calls\<close> is a trace of the calls of
  \<^verbatim>\<open>triggerRecommendationRefresh\<close>, kept for the statements only.
\<close>

record Sys =
  interactions :: "InteractionRow list"
  cache :: "(string \<times> RecommendationResponse) list"
  emitted :: "(string \<times> RecommendationUpdateEvent) list"
  gateway_log :: "GatewayLog list"
  refresh_calls :: "(string \<times> RefreshReason) list"

section \<open>RedisService\<close>

definition redis_get :: "Env \<Rightarrow> Sys \<Rightarrow> string \<Rightarrow> error + RecommendationResponse option" where
  "redis_get env s key = (if redis_get_fails env then Inl RedisError else Inr (map_of (cache s) key))"

definition redis_set :: "Env \<Rightarrow> Sys \<Rightarrow> string \<Rightarrow> RecommendationResponse \<Rightarrow> error + Sys" where
  "redis_set env s key v =
     (if redis_set_fails env then Inl RedisError
      else Inr (s\<lparr>cache := (key, v) # filter (\<lambda>(k, _). k \<noteq> key) (cache s)\<rparr>))"

text \<open>
  \<^verbatim>\<open>flushPattern(p + '*')\<close>: the keys that start with \<open>p\<close> are deleted (a user id with
  glob characters is not modelled).
\<close>

definition flushPrefix :: "Env \<Rightarrow> Sys \<Rightarrow> string \<Rightarrow> error + Sys" where
  "flushPrefix env s p =
     (if redis_flush_fails env then Inl RedisError
      else Inr (s\<lparr>cache := filter (\<lambda>(k, _). \<not> prefix p k) (cache s)\<rparr>))"

section \<open>RecommendationsService: the pipeline\<close>

fun moodName :: "Mood \<Rightarrow> string" where
  "moodName CALM = ''CALM''"
| "moodName HAPPY = ''HAPPY''"
| "moodName SAD = ''SAD''"
| "moodName ENERGETIC = ''ENERGETIC''"

fun activityName :: "Activity \<Rightarrow> string" where
  "activityName WORK = ''WORK''"
| "activityName EXERCISE = ''EXERCISE''"
| "activityName RELAX = ''RELAX''"
| "activityName PARTY = ''PARTY''"

fun timeBucketName :: "TimeBucket \<Rightarrow> string" where
  "timeBucketName MORNING = ''MORNING''"
| "timeBucketName AFTERNOON = ''AFTERNOON''"
| "timeBucketName EVENING = ''EVENING''"
| "timeBucketName NIGHT = ''NIGHT''"

definition quoted :: "string \<Rightarrow> string" where
  "quoted s = CHR 0x22 # s @ [CHR 0x22]"

text \<open>One property of \<^verbatim>\<open>JSON.stringify\<close>: an undefined value is left out.\<close>

definition jsonField :: "string \<Rightarrow> string option \<Rightarrow> string list" where
  "jsonField k v = (case v of None \<Rightarrow> [] | Some x \<Rightarrow> [quoted k @ '':'' @ quoted x])"

text \<open>
  \<^verbatim>\<open>JSON.stringify(context)\<close> of a context object. The object every caller passes is the
  output of the schema, whose keys come in the order mood, activity, timeBucket.
\<close>

definition stringifyContext :: "InteractionContext \<Rightarrow> string" where
  "stringifyContext c =
     ''{'' @ joinWith '',''
       (jsonField ''mood'' (map_option moodName (mood c))
        @ jsonField ''activity'' (map_option activityName (activity c))
        @ jsonField ''timeBucket'' (map_option timeBucketName (timeBucket c)))
     @ ''}''"

text \<open>
  The cache key. \<^verbatim>\<open>JSON.stringify(undefined)\<close> is \<^verbatim>\<open>undefined\<close>, which the template
  literal prints as the word \<^verbatim>\<open>undefined\<close>.
\<close>

definition cacheKey :: "string \<Rightarrow> InteractionContext option \<Rightarrow> string" where
  "cacheKey externalUser context =
     ''recommendations:'' @ externalUser @ '':''
     @ (case context of None \<Rightarrow> ''undefined'' | Some c \<Rightarrow> stringifyContext c)"

definition coldStartRecommendations :: "Env \<Rightarrow> string list \<Rightarrow> int \<Rightarrow> error + Track list" where
  "coldStartRecommendations env preferred limit =
     (if preferred \<noteq> [] then q_popular_by_genre env preferred (limit * 2)
      else q_popular_global env (limit * 2))"

definition genreBasedRecommendations ::
  "Env \<Rightarrow> string list \<Rightarrow> string list \<Rightarrow> int \<Rightarrow> error + Track list" where
  "genreBasedRecommendations env preferred excludeTrackIds limit =
     (if preferred = [] then Inr []
      else q_genre_based env preferred excludeTrackIds (limit * 2))"

text \<open>The steps of the branch with an embedding, after the similarity query.\<close>

definition dislikedFilter :: "UserProfile \<Rightarrow> Track list \<Rightarrow> Track list" where
  "dislikedFilter profile tracks =
     (if dislikedGenres profile \<noteq> []
      then filter (\<lambda>t. genre t \<notin> set (dislikedGenres profile)) tracks
      else tracks)"

definition contextStep :: "InteractionContext option \<Rightarrow> Track list \<Rightarrow> Track list" where
  "contextStep context tracks =
     (case context of None \<Rightarrow> tracks | Some c \<Rightarrow> rankByContext tracks c)"

definition fetchInterestGraph :: "Env \<Rightarrow> error + InterestGraph option" where
  "fetchInterestGraph env =
     (if ig_enabled env
      then getOrCompute (q_graph_row env) (q_ig_rows env) (q_graph_upsert env)
      else Inr None)"

definition graphStep :: "InterestGraph option \<Rightarrow> Track list \<Rightarrow> Track list" where
  "graphStep interestGraph tracks =
     (case interestGraph of None \<Rightarrow> tracks | Some g \<Rightarrow> applyInterestGraphFilters tracks g)"

text \<open>
  \<^verbatim>\<open>personalizedRecommendations\<close>, in both variants. \<open>profile\<close> is the profile loaded
  by the caller; the side \<^verbatim>\<open>HEAD\<close> reads the disliked genres from it; the embedding and
  the preferred genres are read from the profile loaded again.
\<close>

definition personalizedRecommendations ::
  "Env \<Rightarrow> UserProfile \<Rightarrow> int \<Rightarrow> InteractionContext option \<Rightarrow> error + Track list" where
  "personalizedRecommendations env profile limit context =
     andThen (q_update_embedding env) (\<lambda>_.
     andThen (q_recent_skips env) (\<lambda>excludeTrackIds.
     andThen (findOrCreateProfile (q_profile_second env) (q_profile_insert env)) (\<lambda>updatedProfile.
       case profileEmbedding updatedProfile of
         Some embedding \<Rightarrow>
           andThen (q_ann env embedding excludeTrackIds (limit * 3)) (\<lambda>rows.
             case service_variant env of
               IncomingSide \<Rightarrow> Inr (contextStep context rows)
             | HeadSide \<Rightarrow>
                 andThen (fetchInterestGraph env) (\<lambda>interestGraph.
                 andThen (q_recent_sequence env) (\<lambda>recentSequence.
                   let tracks = graphStep interestGraph
                                  (contextStep context (dislikedFilter profile rows));
                       reranked = ml_rerank env (map track_id tracks)
                   in Inr (rerankStep tracks reranked))))
       | None \<Rightarrow>
           genreBasedRecommendations env (preferredGenres updatedProfile) excludeTrackIds limit)))"

definition isColdStart :: "nat \<Rightarrow> UserProfile \<Rightarrow> bool" where
  "isColdStart totalInteractions profile =
     (totalInteractions = 0 \<or> (preferredGenres profile = [] \<and> profileEmbedding profile = None))"

text \<open>The candidate tracks on a cache miss, before the diversity rule.\<close>

definition candidateTracks ::
  "Env \<Rightarrow> int \<Rightarrow> InteractionContext option \<Rightarrow> error + Track list" where
  "candidateTracks env limit context =
     andThen (findOrCreateProfile (q_profile_first env) (q_profile_insert env)) (\<lambda>profile.
     andThen (q_stats_total env) (\<lambda>totalInteractions.
       if isColdStart totalInteractions profile
       then coldStartRecommendations env (preferredGenres profile) limit
       else personalizedRecommendations env profile limit context))"

text \<open>\<^verbatim>\<open>request.limit || 20\<close>: an absent limit and the limit 0 both give 20.\<close>

definition limitOr20 :: "int option \<Rightarrow> int" where
  "limitOr20 l = (case l of None \<Rightarrow> 20 | Some n \<Rightarrow> if n = 0 then 20 else n)"

text \<open>
  \<^verbatim>\<open>getRecommendations\<close>. A stored response read back from the cache is taken to be the
  response that was stored.
\<close>

definition getRecommendations ::
  "Env \<Rightarrow> Sys \<Rightarrow> string \<Rightarrow> RecommendationRequest \<Rightarrow> (error + RecommendationResponse) \<times> Sys" where
  "getRecommendations env s externalUser request =
     (let limit = limitOr20 (req_limit request);
          context = req_context request;
          key = cacheKey externalUser context
      in case redis_get env s key of
           Inl e \<Rightarrow> (Inl e, s)
         | Inr (Some cached) \<Rightarrow> (Inr cached, s)
         | Inr None \<Rightarrow>
             (case candidateTracks env limit context of
                Inl e \<Rightarrow> (Inl e, s)
              | Inr tracks \<Rightarrow>
                  (let response = \<lparr>resp_tracks = slice0 (applyDiversityRules tracks) limit,
                                    resp_context = context,
                                    generatedAt = clock env\<rparr>
                   in case redis_set env s key response of
                        Inl e \<Rightarrow> (Inl e, s)
                      | Inr s' \<Rightarrow> (Inr response, s'))))"

definition invalidateCache :: "Env \<Rightarrow> Sys \<Rightarrow> string \<Rightarrow> error + Sys" where
  "invalidateCache env s externalUser =
     flushPrefix env s (''recommendations:'' @ externalUser @ '':'')"

section \<open>RecommendationsController and the request schema\<close>

text \<open>A query parameter: absent, or a string. The empty string is falsy.\<close>

definition truthyParam :: "string option \<Rightarrow> bool" where
  "truthyParam v = (case v of None \<Rightarrow> False | Some x \<Rightarrow> x \<noteq> [])"

text \<open>The enum schemas: a string that is not a member is refused.\<close>

definition parseMood :: "string \<Rightarrow> Mood option" where
  "parseMood x =
     (if x = ''CALM'' then Some CALM else if x = ''HAPPY'' then Some HAPPY
      else if x = ''SAD'' then Some SAD else if x = ''ENERGETIC'' then Some ENERGETIC
      else None)"

definition parseActivity :: "string \<Rightarrow> Activity option" where
  "parseActivity x =
     (if x = ''WORK'' then Some WORK else if x = ''EXERCISE'' then Some EXERCISE
      else if x = ''RELAX'' then Some RELAX else if x = ''PARTY'' then Some PARTY
      else None)"

definition parseTimeBucket :: "string \<Rightarrow> TimeBucket option" where
  "parseTimeBucket x =
     (if x = ''MORNING'' then Some MORNING else if x = ''AFTERNOON'' then Some AFTERNOON
      else if x = ''EVENING'' then Some EVENING else if x = ''NIGHT'' then Some NIGHT
      else None)"

text \<open>An optional enum field: undefined passes as undefined.\<close>

definition optionalEnum :: "(string \<Rightarrow> 'a option) \<Rightarrow> string option \<Rightarrow> error + 'a option" where
  "optionalEnum parse v =
     (case v of
        None \<Rightarrow> Inr None
      | Some x \<Rightarrow> (case parse x of None \<Rightarrow> Inl ZodError | Some y \<Rightarrow> Inr (Some y)))"

text \<open>
  An object handed to \<^verbatim>\<open>InteractionContextSchema\<close>: the three fields of the schema, and
  whatever other keys it has. The schema is a plain \<^verbatim>\<open>z.object\<close>, which leaves keys it
  does not know out of its output. The controller builds the object from the three
  query parameters alone.
\<close>

record RawContext =
  raw_mood :: "string option"
  raw_activity :: "string option"
  raw_timeBucket :: "string option"
  raw_unknown :: "(string \<times> string) list"

definition InteractionContextSchema :: "RawContext \<Rightarrow> error + InteractionContext" where
  "InteractionContextSchema raw =
     andThen (optionalEnum parseMood (raw_mood raw)) (\<lambda>m.
     andThen (optionalEnum parseActivity (raw_activity raw)) (\<lambda>a.
     andThen (optionalEnum parseTimeBucket (raw_timeBucket raw)) (\<lambda>b.
       Inr \<lparr>mood = m, activity = a, timeBucket = b\<rparr>)))"

text \<open>
  The limit as it reaches the schema: undefined, \<^verbatim>\<open>NaN\<close>, or an integer (what
  \<^verbatim>\<open>parseInt\<close> returns).
\<close>

datatype RawLimit = LimitUndefined | LimitNaN | LimitInt int

text \<open>\<^verbatim>\<open>z.number().int().min(1).max(50).optional().default(20)\<close>.\<close>

definition limitSchema :: "RawLimit \<Rightarrow> error + int" where
  "limitSchema l =
     (case l of
        LimitUndefined \<Rightarrow> Inr 20
      | LimitNaN \<Rightarrow> Inl ZodError
      | LimitInt n \<Rightarrow> if 1 \<le> n \<and> n \<le> 50 then Inr n else Inl ZodError)"

definition RecommendationRequestSchema ::
  "RawContext option \<Rightarrow> RawLimit \<Rightarrow> error + RecommendationRequest" where
  "RecommendationRequestSchema rawContext rawLimit =
     andThen (case rawContext of
                None \<Rightarrow> Inr None
              | Some raw \<Rightarrow> andThen (InteractionContextSchema raw) (\<lambda>c. Inr (Some c))) (\<lambda>c.
     andThen (limitSchema rawLimit) (\<lambda>n.
       Inr \<lparr>req_context = c, req_limit = Some n\<rparr>))"

text \<open>The \<^verbatim>\<open>request\<close> object of the controller.\<close>

definition requestContext :: "string option \<Rightarrow> string option \<Rightarrow> string option \<Rightarrow> RawContext option" where
  "requestContext m a b =
     (if truthyParam m \<or> truthyParam a \<or> truthyParam b
      then Some \<lparr>raw_mood = m, raw_activity = a, raw_timeBucket = b, raw_unknown = []\<rparr>
      else None)"

definition requestLimit :: "string option \<Rightarrow> RawLimit" where
  "requestLimit l =
     (case l of
        None \<Rightarrow> LimitInt 20
      | Some x \<Rightarrow>
          if x = [] then LimitInt 20
          else (case parseInt10 x of None \<Rightarrow> LimitNaN | Some n \<Rightarrow> LimitInt n))"

text \<open>\<^verbatim>\<open>GET /recommendations\<close>.\<close>

definition getRecommendationsController ::
  "Env \<Rightarrow> Sys \<Rightarrow> string \<Rightarrow> string option \<Rightarrow> string option \<Rightarrow> string option \<Rightarrow> string option
   \<Rightarrow> (error + RecommendationResponse) \<times> Sys" where
  "getRecommendationsController env s externalUser m a b l =
     (case RecommendationRequestSchema (requestContext m a b) (requestLimit l) of
        Inl e \<Rightarrow> (Inl e, s)
      | Inr validated \<Rightarrow> getRecommendations env s externalUser validated)"

section \<open>RecommendationGateway\<close>

text \<open>
  The body of the \<^verbatim>\<open>try\<close> block of \<^verbatim>\<open>triggerRecommendationRefresh\<close>: the first call
  that throws ends it with that error.
\<close>

definition refreshBody :: "Env \<Rightarrow> Sys \<Rightarrow> string \<Rightarrow> RefreshReason \<Rightarrow> (error + unit) \<times> Sys" where
  "refreshBody env s userId reason =
     (case invalidateCache env s userId of
        Inl e \<Rightarrow> (Inl e, s)
      | Inr s1 \<Rightarrow>
          (case getRecommendations env s1 userId \<lparr>req_context = None, req_limit = Some 20\<rparr> of
             (Inl e, s2) \<Rightarrow> (Inl e, s2)
           | (Inr recommendations, s2) \<Rightarrow>
               if emit_fails env then (Inl SocketError, s2)
               else
                 (Inr (),
                  s2\<lparr>emitted := emitted s2 @
                         [(''user:'' @ userId,
                           \<lparr>ev_tracks = resp_tracks recommendations, ev_reason = reason\<rparr>)],
                      gateway_log := gateway_log s2 @ [SentRefresh userId reason]\<rparr>)))"

text \<open>The whole method: the \<^verbatim>\<open>catch\<close> block logs the error and returns.\<close>

definition triggerRecommendationRefresh ::
  "Env \<Rightarrow> Sys \<Rightarrow> string \<Rightarrow> RefreshReason \<Rightarrow> (error + unit) \<times> Sys" where
  "triggerRecommendationRefresh env s userId reason =
     (let s0 = s\<lparr>refresh_calls := refresh_calls s @ [(userId, reason)]\<rparr>
      in case refreshBody env s0 userId reason of
           (Inl e, s') \<Rightarrow> (Inr (), s'\<lparr>gateway_log := gateway_log s' @ [FailedRefresh userId e]\<rparr>)
         | (Inr u, s') \<Rightarrow> (Inr u, s'))"

section \<open>InteractionsService and InteractionsController\<close>

definition SKIP_DETECTION_WINDOW_SEC :: rat where
  "SKIP_DETECTION_WINDOW_SEC = 60"

definition SKIP_THRESHOLD :: nat where
  "SKIP_THRESHOLD = 2"

text \<open>The validated body of \<^verbatim>\<open>POST /interactions\<close> (event value, context and client
  time stamp are stored and never read again).\<close>

record InteractionEventInput =
  in_trackId :: string
  in_eventType :: EventType

text \<open>The \<^verbatim>\<open>COUNT(*)\<close> query: the user's \<^verbatim>\<open>SKIP\<close> rows created after \<open>now - 60 s\<close>.\<close>

definition countRecentSkips :: "InteractionRow list \<Rightarrow> string \<Rightarrow> rat \<Rightarrow> nat" where
  "countRecentSkips rows externalUser now =
     length (filter (\<lambda>r. ir_user r = externalUser \<and> ir_event r = SKIP
                          \<and> now - SKIP_DETECTION_WINDOW_SEC < ir_created_at r) rows)"

definition shouldRefreshRecommendations :: "Env \<Rightarrow> Sys \<Rightarrow> string \<Rightarrow> EventType \<Rightarrow> error + bool" where
  "shouldRefreshRecommendations env s externalUser eventType =
     (if eventType \<noteq> SKIP then Inr False
      else if q_count_fails env then Inl DbError
      else Inr (SKIP_THRESHOLD \<le> countRecentSkips (interactions s) externalUser (now_count env)))"

text \<open>The row the \<^verbatim>\<open>INSERT\<close> stores, with the time of the insert.\<close>

definition insertedRow :: "Env \<Rightarrow> string \<Rightarrow> InteractionEventInput \<Rightarrow> InteractionRow" where
  "insertedRow env externalUser event =
     \<lparr>ir_user = externalUser, ir_track = in_trackId event,
      ir_event = in_eventType event, ir_created_at = now_insert env\<rparr>"

definition recordInteraction ::
  "Env \<Rightarrow> Sys \<Rightarrow> string \<Rightarrow> InteractionEventInput \<Rightarrow> (error + InteractionRow \<times> bool) \<times> Sys" where
  "recordInteraction env s externalUser event =
     (if q_insert_fails env then (Inl DbError, s)
      else
        (let row = insertedRow env externalUser event;
             s1 = s\<lparr>interactions := interactions s @ [row]\<rparr>
         in case shouldRefreshRecommendations env s1 externalUser (in_eventType event) of
              Inl e \<Rightarrow> (Inl e, s1)
            | Inr shouldRefresh \<Rightarrow> (Inr (row, shouldRefresh), s1)))"

record InteractionReply =
  success :: bool
  interaction :: InteractionRow
  refreshTriggered :: bool

text \<open>
  \<^verbatim>\<open>POST /interactions\<close>, given the verdict of the body schema. (The variant of the
  controller that also starts an interest-graph refresh does not await it and catches
  its error; that call changes nothing modelled here.)
\<close>

definition recordInteractionController ::
  "Env \<Rightarrow> Sys \<Rightarrow> string \<Rightarrow> error + InteractionEventInput \<Rightarrow> (error + InteractionReply) \<times> Sys" where
  "recordInteractionController env s externalUser parsed =
     (case parsed of
        Inl e \<Rightarrow> (Inl e, s)
      | Inr validated \<Rightarrow>
          (case recordInteraction env s externalUser validated of
             (Inl e, s1) \<Rightarrow> (Inl e, s1)
           | (Inr (row, shouldRefresh), s1) \<Rightarrow>
               (let reply = \<lparr>success = True, interaction = row, refreshTriggered = shouldRefresh\<rparr>
                in if shouldRefresh
                   then (case triggerRecommendationRefresh env s1 externalUser skip_detected of
                           (Inl e, s2) \<Rightarrow> (Inl e, s2)
                         | (Inr _, s2) \<Rightarrow> (Inr reply, s2))
                   else (Inr reply, s1))))"

section \<open>Runs of the service\<close>

text \<open>
  The calls that change the state, and the state after a sequence of them. (Cache
  entries also expire; an expired entry is gone, which no statement below depends on.)
\<close>

datatype Call =
    CallGet Env string RecommendationRequest
  | CallHttpGet Env string "string option" "string option" "string option" "string option"
  | CallInvalidate Env string
  | CallTrigger Env string RefreshReason
  | CallRecord Env string "error + InteractionEventInput"

fun stepCall :: "Sys \<Rightarrow> Call \<Rightarrow> Sys" where
  "stepCall s (CallGet env u req) = snd (getRecommendations env s u req)"
| "stepCall s (CallHttpGet env u m a b l) = snd (getRecommendationsController env s u m a b l)"
| "stepCall s (CallInvalidate env u) =
     (case invalidateCache env s u of Inl e \<Rightarrow> s | Inr s' \<Rightarrow> s')"
| "stepCall s (CallTrigger env u r) = snd (triggerRecommendationRefresh env s u r)"
| "stepCall s (CallRecord env u body) = snd (recordInteractionController env s u body)"

definition runCalls :: "Sys \<Rightarrow> Call list \<Rightarrow> Sys" where
  "runCalls s calls = foldl stepCall s calls"

section \<open>Example data\<close>

definition emptySys :: Sys where
  "emptySys = \<lparr>interactions = [], cache = [], emitted = [], gateway_log = [], refresh_calls = []\<rparr>"

definition plainRow :: ProfileRow where
  "plainRow = \<lparr>external_user_id = ''u1'', preferred_genres = Some [''Pop''],
               disliked_genres = Some [], profile_embedding = DbNull\<rparr>"

text \<open>
  An environment in which nothing fails and every query comes back empty; it runs the
  side \<^verbatim>\<open>HEAD\<close>.
\<close>

definition quietEnv :: Env where
  "quietEnv =
     \<lparr>redis_get_fails = False, redis_set_fails = False, redis_flush_fails = False,
      emit_fails = False,
      q_profile_first = Inr (Some plainRow), q_profile_insert = Inr plainRow,
      q_stats_total = Inr 0,
      q_popular_by_genre = (\<lambda>_ _. Inr []), q_popular_global = (\<lambda>_. Inr []),
      q_update_embedding = Inr (), q_recent_skips = Inr [],
      q_profile_second = Inr (Some plainRow),
      q_ann = (\<lambda>_ _ _. Inr []), q_genre_based = (\<lambda>_ _ _. Inr []),
      ig_enabled = True, q_graph_row = Inr None, q_ig_rows = Inr [],
      q_graph_upsert = Inr (), q_recent_sequence = Inr [],
      ml_rerank = (\<lambda>_. None),
      q_insert_fails = False, q_count_fails = False,
      now_insert = 100, now_count = 100, clock = 0, service_variant = HeadSide\<rparr>"

section \<open>Properties used in the statements, and example inputs\<close>

text \<open>No index starts a run of four tracks by one artist.\<close>

definition diverse :: "Track list \<Rightarrow> bool" where
  "diverse xs = (\<forall>i. \<not> run4_at xs i)"

text \<open>Every response the cache holds is diverse.\<close>

definition cacheDiverse :: "Sys \<Rightarrow> bool" where
  "cacheDiverse s = list_all (\<lambda>(k, r). diverse (resp_tracks r)) (cache s)"

text \<open>Four tracks by artist A followed by one by B, and the same list capped at three.\<close>

definition fourByA :: "Track list" where
  "fourByA = [mkTrack ''t1'' ''A'' ''Pop'' None, mkTrack ''t2'' ''A'' ''Pop'' None,
              mkTrack ''t3'' ''A'' ''Pop'' None, mkTrack ''t4'' ''A'' ''Pop'' None,
              mkTrack ''t5'' ''B'' ''Pop'' None]"

definition capped :: "Track list" where
  "capped = [mkTrack ''t1'' ''A'' ''Pop'' None, mkTrack ''t2'' ''A'' ''Pop'' None,
             mkTrack ''t3'' ''A'' ''Pop'' None, mkTrack ''t5'' ''B'' ''Pop'' None]"

text \<open>The first occurrences of the elements of a list, in their order.\<close>

primrec firstOcc :: "'a list \<Rightarrow> 'a list" where
  "firstOcc [] = []"
| "firstOcc (x # xs) = x # filter (\<lambda>y. y \<noteq> x) (firstOcc xs)"

text \<open>Three candidates, a rerank reply that names a stranger, the third candidate
  twice and the first; and two different tracks under one id.\<close>

definition threeTracks :: "Track list" where
  "threeTracks = [mkTrack ''t1'' ''A'' ''Pop'' None, mkTrack ''t2'' ''B'' ''Pop'' None,
                  mkTrack ''t3'' ''C'' ''Rock'' None]"

definition rerankReply :: "RerankResult list" where
  "rerankReply = [\<lparr>rr_trackId = ''t9'', rr_score = 4\<rparr>, \<lparr>rr_trackId = ''t3'', rr_score = 3\<rparr>,
                  \<lparr>rr_trackId = ''t3'', rr_score = 2\<rparr>, \<lparr>rr_trackId = ''t1'', rr_score = 1\<rparr>]"

definition sameIdTracks :: "Track list" where
  "sameIdTracks = [mkTrack ''t1'' ''A'' ''Pop'' None, mkTrack ''t1'' ''B'' ''Rock'' None]"

text \<open>A track by an artist the graph says to avoid, one it does not, and two
  environments of a returning user on the side \<^verbatim>\<open>HEAD\<close>: without and with a profile
  embedding.\<close>

definition avoided :: Track where
  "avoided = mkTrack ''t7'' ''X'' ''Pop'' None"

definition allowed :: Track where
  "allowed = mkTrack ''t8'' ''Y'' ''Pop'' None"

definition avoidGraph :: InterestGraph where
  "avoidGraph = \<lparr>ig_version = 1, generatedBy = ''heuristic'', windowDays = 90,
                 topArtists = [], topGenres = [], avoidArtists = [(''X'', 1)], avoidGenres = []\<rparr>"

definition embeddedRow :: ProfileRow where
  "embeddedRow = plainRow\<lparr>profile_embedding := DbArray [VNum (JNum 1)]\<rparr>"

definition fallbackEnv :: Env where
  "fallbackEnv = quietEnv\<lparr>q_stats_total := Inr 5, q_genre_based := (\<lambda>_ _ _. Inr [avoided]),
                          q_graph_row := Inr (Some avoidGraph)\<rparr>"

definition similarityEnv :: Env where
  "similarityEnv = quietEnv\<lparr>q_stats_total := Inr 5, q_profile_second := Inr (Some embeddedRow),
                          q_ann := (\<lambda>_ _ _. Inr [avoided, allowed]),
                          q_graph_row := Inr (Some avoidGraph)\<rparr>"

text \<open>The same environment of the user with an embedding, running the other variant.\<close>

definition incomingEnv :: Env where
  "incomingEnv = similarityEnv\<lparr>service_variant := IncomingSide\<rparr>"


text \<open>A calm context, a track of energy 0 and one of energy 1/2; and a history of
  one liked and one skipped track by different artists.\<close>

definition calmContext :: InteractionContext where
  "calmContext = \<lparr>mood = Some CALM, activity = None, timeBucket = None\<rparr>"

definition silent :: Track where
  "silent = mkTrack ''q0'' ''A'' ''Ambient''
              (Some \<lparr>energy = Some 0, valence = None, danceability = None\<rparr>)"

definition medium :: Track where
  "medium = mkTrack ''q5'' ''B'' ''Ambient''
              (Some \<lparr>energy = Some (1 / 2), valence = None, danceability = None\<rparr>)"

definition mixedRows :: "IgRow list" where
  "mixedRows = [\<lparr>ig_event = LIKE, ig_artist = Some ''Artist A'', ig_genre = Some ''rock''\<rparr>,
                \<lparr>ig_event = SKIP, ig_artist = Some ''Artist B'', ig_genre = Some ''pop''\<rparr>]"

text \<open>An environment whose cache flush throws; a skip event.\<close>

definition flushDownEnv :: Env where
  "flushDownEnv = quietEnv\<lparr>redis_flush_fails := True\<rparr>"







text \<open>The context object without any field.\<close>

definition emptyContext :: InteractionContext where
  "emptyContext = \<lparr>mood = None, activity = None, timeBucket = None\<rparr>"

text \<open>
  The store. The column \<^verbatim>\<open>profile_embedding\<close> has the type \<^verbatim>\<open>vector(256)\<close>, and its one
  writer casts to that type: a stored value is \<^verbatim>\<open>null\<close> or a vector of 256 finite
  components. The driver hands a vector over as its text, \<^verbatim>\<open>[c1,...,c256]\<close>, each
  component one decimal literal without white space (or, with a type parser installed,
  as an array of numbers).
\<close>

definition float4Text :: "string \<Rightarrow> bool" where
  "float4Text c =
     (c \<noteq> [] \<and> list_all (\<lambda>ch. ch \<noteq> CHR '','' \<and> \<not> isWs ch) c
      \<and> (case scanDecimal c of (v, rest) \<Rightarrow> rest = [] \<and> isFinite v))"

definition vectorText :: "string list \<Rightarrow> string" where
  "vectorText comps = ''['' @ joinWith '','' comps @ '']''"

fun finiteNumber :: "jsval \<Rightarrow> bool" where
  "finiteNumber (VNum n) = isFinite n"
| "finiteNumber _ = False"

text \<open>A stored row whose vector starts with 0.5 and -2.5e-01 and goes on with zeros.\<close>

definition storedComponents :: "string list" where
  "storedComponents = ''0.5'' # ''-2.5e-01'' # replicate 254 ''0''"

definition storedRow :: ProfileRow where
  "storedRow = plainRow\<lparr>profile_embedding := DbString (vectorText storedComponents)\<rparr>"

section \<open>Verification\<close>

subsection \<open>Doubles\<close>

lemma roundDouble_values:
  "roundDouble 1 = 1" "roundDouble 2 = 2" "roundDouble 3 = 3" "roundDouble 5 = 5"
  "roundDouble (1 / 2) = 1 / 2" "roundDouble (- (1 / 2)) = - (1 / 2)"
  "roundDouble (- 1) = - 1" "roundDouble (1 / 4) = 1 / 4"
  by code_simp+

lemma pow2_pos: "0 < pow2 e"
  by (simp add: pow2_def)

lemma roundHalfEven_nonneg: "0 \<le> m \<Longrightarrow> 0 \<le> roundHalfEven m"
  by (auto simp: roundHalfEven_def Let_def)

lemma roundHalfEven_le_int:
  assumes "m \<le> of_int k"
  shows "roundHalfEven m \<le> k"
proof -
  have f: "\<lfloor>m\<rfloor> \<le> k" using assms by (simp add: floor_le_iff)
  show ?thesis
  proof (cases "\<lfloor>m\<rfloor> = k")
    case True
    then have "of_int k \<le> m" by (metis of_int_floor_le)
    with assms have "m = of_int k" by simp
    then show ?thesis by (simp add: roundHalfEven_def Let_def)
  next
    case False
    with f have "\<lfloor>m\<rfloor> + 1 \<le> k" by simp
    with f show ?thesis by (auto simp: roundHalfEven_def Let_def)
  qed
qed

lemma binaryExponent_le_0:
  assumes "0 < a" and "a \<le> 1"
  shows "binaryExponent a \<le> 0"
proof -
  obtain p q where pq: "quotient_of a = (p, q)" by (cases "quotient_of a") auto
  then have q: "0 < q" and a: "a = of_int p / of_int q"
    by (auto dest: quotient_of_denom_pos quotient_of_div)
  from assms(1) a q have p: "0 < p" by (simp add: zero_less_divide_iff)
  from assms(2) a q have "p \<le> q" by (simp add: divide_le_eq)
  then have "nat p \<le> nat q" by simp
  then have "floorlog 2 (nat p) \<le> floorlog 2 (nat q)" by (rule floorlog_mono)
  then have "int (floorlog 2 (nat p)) - int (floorlog 2 (nat q)) \<le> 0" by simp
  then show ?thesis by (auto simp: binaryExponent_def pq Let_def)
qed

lemma roundDouble_nonneg: "0 \<le> x \<Longrightarrow> 0 \<le> roundDouble x"
proof -
  assume x: "0 \<le> x"
  show ?thesis
  proof (cases "x = 0")
    case True
    then show ?thesis by (simp add: roundDouble_def)
  next
    case False
    let ?u = "pow2 (max (binaryExponent \<bar>x\<bar>) (- 1022) - 52)"
    have "0 \<le> \<bar>x\<bar> / ?u" using pow2_pos [of "max (binaryExponent \<bar>x\<bar>) (- 1022) - 52"] by simp
    then have "0 \<le> roundHalfEven (\<bar>x\<bar> / ?u)" by (rule roundHalfEven_nonneg)
    then have "0 \<le> rat_of_int (roundHalfEven (\<bar>x\<bar> / ?u)) * ?u"
      using pow2_pos [of "max (binaryExponent \<bar>x\<bar>) (- 1022) - 52"] by simp
    with x False show ?thesis by (simp add: roundDouble_def Let_def)
  qed
qed

lemma roundDouble_le_1:
  assumes "x \<le> 1"
  shows "roundDouble x \<le> 1"
proof -
  consider "x = 0" | "x < 0" | "0 < x" by linarith
  then show ?thesis
  proof cases
    case 1
    then show ?thesis by (simp add: roundDouble_def)
  next
    case 2
    let ?u = "pow2 (max (binaryExponent \<bar>x\<bar>) (- 1022) - 52)"
    have "0 \<le> \<bar>x\<bar> / ?u" using pow2_pos [of "max (binaryExponent \<bar>x\<bar>) (- 1022) - 52"] by simp
    then have "0 \<le> roundHalfEven (\<bar>x\<bar> / ?u)" by (rule roundHalfEven_nonneg)
    then have "0 \<le> rat_of_int (roundHalfEven (\<bar>x\<bar> / ?u)) * ?u"
      using pow2_pos [of "max (binaryExponent \<bar>x\<bar>) (- 1022) - 52"] by simp
    with 2 show ?thesis by (simp add: roundDouble_def Let_def)
  next
    case 3
    define e where "e = max (binaryExponent x) (- 1022)"
    define k where "k = nat (52 - e)"
    have "binaryExponent x \<le> 0" using 3 assms by (rule binaryExponent_le_0)
    then have e: "e \<le> 0" by (simp add: e_def)
    then have u: "pow2 (e - 52) = 1 / 2 ^ k" by (simp add: pow2_def k_def)
    have "x / pow2 (e - 52) = x * 2 ^ k" by (simp add: u)
    also have "\<dots> \<le> 1 * 2 ^ k" using assms by (intro mult_right_mono) simp_all
    finally have "x / pow2 (e - 52) \<le> of_int (2 ^ k)" by simp
    then have "roundHalfEven (x / pow2 (e - 52)) \<le> 2 ^ k" by (rule roundHalfEven_le_int)
    then have "rat_of_int (roundHalfEven (x / pow2 (e - 52))) \<le> 2 ^ k"
      by (metis of_int_le_iff of_int_numeral of_int_power)
    then have "rat_of_int (roundHalfEven (x / pow2 (e - 52))) * pow2 (e - 52) \<le> 1"
      by (simp add: u divide_le_eq)
    with 3 show ?thesis by (simp add: roundDouble_def Let_def e_def)
  qed
qed


lemma countFromEnd_ge:
  "k \<le> countFromEnd a ys \<longleftrightarrow> k \<le> length ys \<and> (\<forall>j<k. artist (ys ! j) = a)"
proof (induction ys arbitrary: k)
  case Nil
  show ?case by auto
next
  case (Cons t ts)
  show ?case
  proof (cases k)
    case 0
    then show ?thesis by simp
  next
    case (Suc k')
    show ?thesis
    proof (cases "artist t = a")
      case True
      have "(\<forall>j<Suc k'. artist ((t # ts) ! j) = a) \<longleftrightarrow> (\<forall>j<k'. artist (ts ! j) = a)"
        using True by (auto simp: less_Suc_eq_0_disj)
      with Cons.IH [of k'] True Suc show ?thesis by simp
    next
      case False
      then show ?thesis using Suc by auto
    qed
  qed
qed

lemma run4_append1:
  assumes "\<not> run4_at xs i" and "i + 3 < length xs"
  shows "\<not> run4_at (xs @ [t]) i"
  using assms by (simp add: run4_at_def nth_append)

lemma diversity_step_no_run:
  assumes inv: "\<forall>i. \<not> run4_at result i"
    and cnt: "getConsecutiveArtistCount result (artist t) < MAX_SAME_ARTIST_CONSECUTIVE"
  shows "\<forall>i. \<not> run4_at (result @ [t]) i"
proof (intro allI notI)
  fix i
  assume r: "run4_at (result @ [t]) i"
  let ?n = "length result"
  from r have len: "i + 3 < ?n + 1" by (simp add: run4_at_def)
  show False
  proof (cases "i + 3 < ?n")
    case True
    with inv r run4_append1 [of result i t] show False by blast
  next
    case False
    with len have i3: "i + 3 = ?n" by simp
    from r i3 have e: "artist (result ! i) = artist t"
      "artist (result ! (i + 1)) = artist t" "artist (result ! (i + 2)) = artist t"
      by (auto simp: run4_at_def nth_append)
    have n: "length result = i + 3" using i3 by simp
    have r0: "rev result ! 0 = result ! (i + 2)"
      and r1: "rev result ! 1 = result ! (i + 1)"
      and r2: "rev result ! 2 = result ! i"
      by (simp_all add: rev_nth n)
    have "\<forall>j<3. artist (rev result ! j) = artist t"
    proof (intro allI impI)
      fix j :: nat
      assume "j < 3"
      then consider "j = 0" | "j = 1" | "j = 2" by linarith
      then show "artist (rev result ! j) = artist t"
        using e r0 r1 r2 by cases simp_all
    qed
    moreover from i3 have "3 \<le> length (rev result)" by simp
    ultimately have "3 \<le> countFromEnd (artist t) (rev result)"
      using countFromEnd_ge [of 3 "artist t" "rev result"] by blast
    with cnt show False
      by (simp add: getConsecutiveArtistCount_def MAX_SAME_ARTIST_CONSECUTIVE_def)
  qed
qed

subsection \<open>Artist diversity\<close>

lemma diversityLoop_diverse:
  "diverse result \<Longrightarrow> diverse (diversityLoop result ts)"
proof (induction ts arbitrary: result)
  case Nil
  then show ?case by simp
next
  case (Cons t ts)
  show ?case
  proof (cases "getConsecutiveArtistCount result (artist t) < MAX_SAME_ARTIST_CONSECUTIVE")
    case True
    with Cons.prems have "diverse (result @ [t])"
      using diversity_step_no_run [of result t] by (simp add: diverse_def)
    with Cons.IH [of "result @ [t]"] True show ?thesis by simp
  next
    case False
    with Cons.IH [of result] Cons.prems show ?thesis by simp
  qed
qed

lemma diversityLoop_subseq:
  "\<exists>ys. diversityLoop result ts = result @ ys \<and> subseq ys ts"
proof (induction ts arbitrary: result)
  case Nil
  show ?case by simp
next
  case (Cons t ts)
  show ?case
  proof (cases "getConsecutiveArtistCount result (artist t) < MAX_SAME_ARTIST_CONSECUTIVE")
    case True
    from Cons.IH [of "result @ [t]"] obtain ys where
      ys: "diversityLoop (result @ [t]) ts = (result @ [t]) @ ys" "subseq ys ts" by blast
    have "diversityLoop result (t # ts) = result @ (t # ys)" using True ys(1) by simp
    moreover have "subseq (t # ys) (t # ts)" using ys(2) by simp
    ultimately show ?thesis by blast
  next
    case False
    from Cons.IH [of result] obtain ys where
      ys: "diversityLoop result ts = result @ ys" "subseq ys ts" by blast
    have "diversityLoop result (t # ts) = result @ ys" using False ys(1) by simp
    moreover have "subseq ys (t # ts)" using ys(2) by (rule list_emb_Cons)
    ultimately show ?thesis by blast
  qed
qed

lemma applyDiversityRules_subseq: "subseq (applyDiversityRules tracks) tracks"
  using diversityLoop_subseq [of "[]" tracks] by (auto simp: applyDiversityRules_def)

lemma diverse_Nil: "diverse []"
  by (simp add: diverse_def run4_at_def)

lemma applyDiversityRules_diverse: "diverse (applyDiversityRules tracks)"
  unfolding applyDiversityRules_def by (rule diversityLoop_diverse [OF diverse_Nil])

lemma run4_at_take: "run4_at (take n xs) i \<Longrightarrow> run4_at xs i"
  by (auto simp: run4_at_def)

lemma diverse_take: "diverse xs \<Longrightarrow> diverse (take n xs)"
  unfolding diverse_def using run4_at_take by blast

lemma diverse_slice0: "diverse xs \<Longrightarrow> diverse (slice0 xs n)"
  by (simp add: slice0_def diverse_take)

lemma set_applyDiversityRules: "set (applyDiversityRules tracks) \<subseteq> set tracks"
  using applyDiversityRules_subseq [of tracks] by (auto dest: list_emb_set)

lemma set_slice0: "set (slice0 xs n) \<subseteq> set xs"
  by (auto simp: slice0_def dest: in_set_takeD)

lemma length_slice0: "0 \<le> n \<Longrightarrow> int (length (slice0 xs n)) \<le> n"
  by (simp add: slice0_def)

subsection \<open>The cache\<close>

lemma redis_get_cases:
  "redis_get env s key = Inr (Some r) \<Longrightarrow> (key, r) \<in> set (cache s)"
  by (auto simp: redis_get_def split: if_splits dest: map_of_SomeD)

lemma cacheDiverse_get:
  "cacheDiverse s \<Longrightarrow> redis_get env s key = Inr (Some r) \<Longrightarrow> diverse (resp_tracks r)"
  by (drule redis_get_cases) (auto simp: cacheDiverse_def list_all_iff)

lemma cacheDiverse_set:
  "cacheDiverse s \<Longrightarrow> diverse (resp_tracks r) \<Longrightarrow> redis_set env s key r = Inr s'
   \<Longrightarrow> cacheDiverse s'"
  by (auto simp: cacheDiverse_def redis_set_def list_all_iff split: if_splits)

lemma cacheDiverse_flush:
  "cacheDiverse s \<Longrightarrow> flushPrefix env s p = Inr s' \<Longrightarrow> cacheDiverse s'"
  by (auto simp: cacheDiverse_def flushPrefix_def list_all_iff split: if_splits)

lemma getRecommendations_diverse:
  assumes "cacheDiverse s" and "getRecommendations env s u req = (res, s')"
  shows "cacheDiverse s' \<and> (\<forall>resp. res = Inr resp \<longrightarrow> diverse (resp_tracks resp))"
proof (cases "redis_get env s (cacheKey u (req_context req))")
  case (Inl e)
  with assms show ?thesis by (auto simp: getRecommendations_def Let_def)
next
  case (Inr hit)
  show ?thesis
  proof (cases hit)
    case (Some cached)
    with Inr assms cacheDiverse_get [of s env _ cached] show ?thesis
      by (auto simp: getRecommendations_def Let_def)
  next
    case None
    show ?thesis
    proof (cases "candidateTracks env (limitOr20 (req_limit req)) (req_context req)")
      case (Inl e)
      with None Inr assms show ?thesis by (auto simp: getRecommendations_def Let_def)
    next
      case tr: (Inr tracks)
      let ?resp = "\<lparr>resp_tracks = slice0 (applyDiversityRules tracks) (limitOr20 (req_limit req)),
                     resp_context = req_context req, generatedAt = clock env\<rparr>"
      have d: "diverse (resp_tracks ?resp)"
        by (simp add: diverse_slice0 applyDiversityRules_diverse)
      show ?thesis
      proof (cases "redis_set env s (cacheKey u (req_context req)) ?resp")
        case (Inl e)
        with tr None Inr assms show ?thesis by (auto simp: getRecommendations_def Let_def)
      next
        case st: (Inr s2)
        with tr None Inr assms have "s' = s2" "res = Inr ?resp"
          by (auto simp: getRecommendations_def Let_def)
        moreover have "cacheDiverse s2" using cacheDiverse_set [OF assms(1) d st] .
        ultimately show ?thesis using d by simp
      qed
    qed
  qed
qed

lemma cacheDiverse_emptySys: "cacheDiverse emptySys"
  by (simp add: cacheDiverse_def emptySys_def)

lemma cacheDiverse_invalidate:
  "cacheDiverse s \<Longrightarrow> invalidateCache env s u = Inr s' \<Longrightarrow> cacheDiverse s'"
  unfolding invalidateCache_def by (rule cacheDiverse_flush)

lemma cacheDiverse_refreshBody:
  assumes "cacheDiverse s"
  shows "cacheDiverse (snd (refreshBody env s u r))"
proof (cases "invalidateCache env s u")
  case (Inl e)
  with assms show ?thesis by (simp add: refreshBody_def)
next
  case (Inr s1)
  with assms have d1: "cacheDiverse s1" using cacheDiverse_invalidate by blast
  obtain res s2 where g: "getRecommendations env s1 u \<lparr>req_context = None, req_limit = Some 20\<rparr> = (res, s2)"
    by (cases "getRecommendations env s1 u \<lparr>req_context = None, req_limit = Some 20\<rparr>") auto
  from getRecommendations_diverse [OF d1 g] have d2: "cacheDiverse s2" by simp
  show ?thesis
  proof (cases res)
    case (Inl e)
    with Inr g d2 show ?thesis by (simp add: refreshBody_def)
  next
    case r: (Inr recs)
    have "cacheDiverse (s2\<lparr>emitted := emitted s2 @
                         [(''user:'' @ u, \<lparr>ev_tracks = resp_tracks recs, ev_reason = r\<rparr>)],
                      gateway_log := gateway_log s2 @ [SentRefresh u r]\<rparr>)"
      using d2 by (simp add: cacheDiverse_def)
    with Inr g r d2 show ?thesis by (simp add: refreshBody_def)
  qed
qed

lemma cacheDiverse_trigger:
  assumes "cacheDiverse s"
  shows "cacheDiverse (snd (triggerRecommendationRefresh env s u r))"
proof -
  let ?s0 = "s\<lparr>refresh_calls := refresh_calls s @ [(u, r)]\<rparr>"
  have "cacheDiverse ?s0" using assms by (simp add: cacheDiverse_def)
  then have "cacheDiverse (snd (refreshBody env ?s0 u r))" by (rule cacheDiverse_refreshBody)
  then show ?thesis
    by (cases "refreshBody env ?s0 u r")
       (auto simp: triggerRecommendationRefresh_def Let_def cacheDiverse_def split: sum.splits)
qed

lemma cacheDiverse_record:
  assumes "cacheDiverse s"
  shows "cacheDiverse (snd (recordInteractionController env s u body))"
proof (cases body)
  case (Inl e)
  with assms show ?thesis by (simp add: recordInteractionController_def)
next
  case (Inr ev)
  obtain res s1 where r: "recordInteraction env s u ev = (res, s1)"
    by (cases "recordInteraction env s u ev") auto
  then have "cache s1 = cache s"
    by (auto simp: recordInteraction_def Let_def split: if_splits sum.splits)
  with assms have d1: "cacheDiverse s1" by (simp add: cacheDiverse_def)
  show ?thesis
  proof (cases res)
    case (Inl e)
    with Inr r d1 show ?thesis by (simp add: recordInteractionController_def)
  next
    case rb: (Inr p)
    obtain row b where p: "p = (row, b)" by (cases p)
    from cacheDiverse_trigger [OF d1, of env u skip_detected] Inr r rb p d1 show ?thesis
      by (cases "triggerRecommendationRefresh env s1 u skip_detected")
         (auto simp: recordInteractionController_def Let_def split: sum.splits)
  qed
qed

lemma cacheDiverse_step: "cacheDiverse s \<Longrightarrow> cacheDiverse (stepCall s c)"
proof (cases c)
  case (CallGet env u req)
  assume "cacheDiverse s"
  with CallGet getRecommendations_diverse [of s env u req] show ?thesis
    by (cases "getRecommendations env s u req") auto
next
  case (CallHttpGet env u m a b l)
  assume d: "cacheDiverse s"
  show ?thesis
  proof (cases "RecommendationRequestSchema (requestContext m a b) (requestLimit l)")
    case (Inl e)
    with CallHttpGet d show ?thesis by (simp add: getRecommendationsController_def)
  next
    case (Inr req)
    with CallHttpGet d getRecommendations_diverse [of s env u req] show ?thesis
      by (cases "getRecommendations env s u req") (auto simp: getRecommendationsController_def)
  qed
next
  case (CallInvalidate env u)
  assume "cacheDiverse s"
  with CallInvalidate cacheDiverse_invalidate [of s env u] show ?thesis
    by (auto split: sum.splits)
next
  case (CallTrigger env u r)
  assume "cacheDiverse s"
  with CallTrigger show ?thesis by (simp add: cacheDiverse_trigger)
next
  case (CallRecord env u body)
  assume "cacheDiverse s"
  with CallRecord show ?thesis by (simp add: cacheDiverse_record)
qed

lemma cacheDiverse_runCalls: "cacheDiverse s \<Longrightarrow> cacheDiverse (runCalls s calls)"
  unfolding runCalls_def by (induction calls arbitrary: s) (auto simp: cacheDiverse_step)


lemma apply_fourByA: "applyDiversityRules fourByA = capped"
  by (simp add: applyDiversityRules_def fourByA_def capped_def mkTrack_def
      getConsecutiveArtistCount_def MAX_SAME_ARTIST_CONSECUTIVE_def)

lemma get_fourByA:
  "getRecommendations (quietEnv\<lparr>q_popular_by_genre := (\<lambda>_ _. Inr fourByA)\<rparr>) emptySys ''u1''
      \<lparr>req_context = None, req_limit = Some 20\<rparr>
   = (Inr \<lparr>resp_tracks = capped, resp_context = None, generatedAt = 0\<rparr>,
      emptySys\<lparr>cache := [(''recommendations:u1:undefined'',
                           \<lparr>resp_tracks = capped, resp_context = None, generatedAt = 0\<rparr>)]\<rparr>)"
  by (simp add: getRecommendations_def limitOr20_def cacheKey_def redis_get_def redis_set_def
      candidateTracks_def findOrCreateProfile_def andThen_def isColdStart_def
      coldStartRecommendations_def quietEnv_def emptySys_def plainRow_def orEmpty_def
      apply_fourByA slice0_def capped_def Let_def)

lemma get_fourByA_again:
  "getRecommendations (quietEnv\<lparr>q_popular_by_genre := (\<lambda>_ _. Inr fourByA)\<rparr>)
      (runCalls emptySys
         [CallGet (quietEnv\<lparr>q_popular_by_genre := (\<lambda>_ _. Inr fourByA)\<rparr>) ''u1''
            \<lparr>req_context = None, req_limit = Some 20\<rparr>]) ''u1''
      \<lparr>req_context = None, req_limit = Some 20\<rparr>
   = (Inr \<lparr>resp_tracks = capped, resp_context = None, generatedAt = 0\<rparr>,
      emptySys\<lparr>cache := [(''recommendations:u1:undefined'',
                           \<lparr>resp_tracks = capped, resp_context = None, generatedAt = 0\<rparr>)]\<rparr>)"
  by (simp add: runCalls_def get_fourByA)
     (simp add: getRecommendations_def cacheKey_def redis_get_def quietEnv_def emptySys_def)

text \<open>
  Claim C5. \<^verbatim>\<open>applyDiversityRules\<close> returns a subsequence of its input (the order is
  kept and a dropped track never comes back) in which no index starts four consecutive
  tracks by one artist. Consequently no list \<^verbatim>\<open>getRecommendations\<close> returns has such a
  run, in any state the service reaches from the empty cache by any sequence of its
  calls: a fresh response is a prefix of a list the rule produced, and a response served
  from the cache is one that an earlier call stored.
\<close>

theorem C5_diversity:
  "subseq (applyDiversityRules tracks) tracks
   \<and> (\<forall>i. \<not> run4_at (applyDiversityRules tracks) i)
   \<and> (getRecommendations env (runCalls emptySys calls) u req = (Inr resp, s')
        \<longrightarrow> (\<forall>i. \<not> run4_at (resp_tracks resp) i))"
  using applyDiversityRules_subseq [of tracks] applyDiversityRules_diverse [of tracks]
    getRecommendations_diverse [of "runCalls emptySys calls" env u req "Inr resp" s']
    cacheDiverse_runCalls [OF cacheDiverse_emptySys, of calls]
  by (simp add: diverse_def)

theorem C5_diversity_witness:
  "getRecommendations (quietEnv\<lparr>q_popular_by_genre := (\<lambda>_ _. Inr fourByA)\<rparr>)
      (runCalls emptySys
         [CallGet (quietEnv\<lparr>q_popular_by_genre := (\<lambda>_ _. Inr fourByA)\<rparr>) ''u1''
            \<lparr>req_context = None, req_limit = Some 20\<rparr>]) ''u1''
      \<lparr>req_context = None, req_limit = Some 20\<rparr>
     = (Inr \<lparr>resp_tracks = capped, resp_context = None, generatedAt = 0\<rparr>,
        emptySys\<lparr>cache := [(''recommendations:u1:undefined'',
                             \<lparr>resp_tracks = capped, resp_context = None, generatedAt = 0\<rparr>)]\<rparr>)
   \<and> applyDiversityRules fourByA = capped
   \<and> subseq capped fourByA
   \<and> (\<forall>i. \<not> run4_at capped i)"
  using C5_diversity [of fourByA "quietEnv\<lparr>q_popular_by_genre := (\<lambda>_ _. Inr fourByA)\<rparr>"
      "[CallGet (quietEnv\<lparr>q_popular_by_genre := (\<lambda>_ _. Inr fourByA)\<rparr>) ''u1''
            \<lparr>req_context = None, req_limit = Some 20\<rparr>]"
      "''u1''" "\<lparr>req_context = None, req_limit = Some 20\<rparr>"
      "\<lparr>resp_tracks = capped, resp_context = None, generatedAt = 0\<rparr>"
      "emptySys\<lparr>cache := [(''recommendations:u1:undefined'',
                             \<lparr>resp_tracks = capped, resp_context = None, generatedAt = 0\<rparr>)]\<rparr>"]
    get_fourByA_again apply_fourByA
  by simp

subsection \<open>The ML rerank step\<close>

lemma firstOcc_filter: "firstOcc (filter Q xs) = filter Q (firstOcc xs)"
proof (induction xs)
  case Nil
  show ?case by simp
next
  case (Cons x xs)
  show ?case
  proof (cases "Q x")
    case True
    with Cons show ?thesis by (simp add: conj_commute)
  next
    case False
    have "filter Q (filter (\<lambda>y. y \<noteq> x) (firstOcc xs)) = filter Q (firstOcc xs)"
      using False by (auto intro: filter_cong)
    with False Cons show ?thesis by simp
  qed
qed

lemma set_firstOcc: "set (firstOcc xs) = set xs"
  by (induction xs) auto

lemma distinct_firstOcc: "distinct (firstOcc xs)"
  by (induction xs) (auto simp: set_firstOcc)

lemma find_SomeD: "find P xs = Some x \<Longrightarrow> P x \<and> x \<in> set xs"
  by (induction xs) (auto split: if_splits)

lemma trackById_Some:
  "trackById tracks i = Some t \<Longrightarrow> t \<in> set tracks \<and> track_id t = i"
  unfolding trackById_def by (auto dest: find_SomeD)

lemma trackById_None:
  "trackById tracks i = None \<longleftrightarrow> i \<notin> set (map track_id tracks)"
  unfolding trackById_def by (auto simp: find_None_iff)

lemma rerankLoop_spec:
  assumes "seen = map track_id ordered" and "set ordered \<subseteq> set tracks"
    and "rerankLoop tracks items (ordered, seen) = (ordered', seen')"
  shows "seen' = map track_id ordered' \<and> set ordered' \<subseteq> set tracks
         \<and> seen' = seen @ firstOcc (filter (\<lambda>i. i \<in> set (map track_id tracks) \<and> i \<notin> set seen)
                                     (map rr_trackId items))"
  using assms
proof (induction items arbitrary: ordered seen)
  case Nil
  then show ?case by auto
next
  case (Cons item items)
  let ?P = "\<lambda>i. i \<in> set (map track_id tracks) \<and> i \<notin> set seen"
  show ?case
  proof (cases "trackById tracks (rr_trackId item)")
    case None
    with Cons.prems have r: "rerankLoop tracks items (ordered, seen) = (ordered', seen')" by simp
    from None have n: "\<not> ?P (rr_trackId item)" by (simp add: trackById_None)
    from Cons.IH [OF Cons.prems(1,2) r]
    have ih: "seen' = map track_id ordered'" "set ordered' \<subseteq> set tracks"
      "seen' = seen @ firstOcc (filter ?P (map rr_trackId items))" by blast+
    have "filter ?P (map rr_trackId (item # items)) = filter ?P (map rr_trackId items)"
      using n by simp
    with ih show ?thesis by metis
  next
    case (Some t)
    then have t: "t \<in> set tracks" "track_id t = rr_trackId item" using trackById_Some by blast+
    show ?thesis
    proof (cases "track_id t \<in> set seen")
      case True
      with Some Cons.prems have r: "rerankLoop tracks items (ordered, seen) = (ordered', seen')" by simp
      from Cons.IH [OF Cons.prems(1,2) r]
      have ih: "seen' = map track_id ordered'" "set ordered' \<subseteq> set tracks"
        "seen' = seen @ firstOcc (filter ?P (map rr_trackId items))" by blast+
      have "filter ?P (map rr_trackId (item # items)) = filter ?P (map rr_trackId items)"
        using True t(2) by simp
      with ih show ?thesis by metis
    next
      case False
      with Some Cons.prems have r:
        "rerankLoop tracks items (ordered @ [t], seen @ [track_id t]) = (ordered', seen')" by simp
      have a: "seen @ [track_id t] = map track_id (ordered @ [t])" using Cons.prems(1) by simp
      have b: "set (ordered @ [t]) \<subseteq> set tracks" using Cons.prems(2) t by simp
      have f: "filter (\<lambda>i. i \<in> set (map track_id tracks) \<and> i \<notin> set (seen @ [track_id t])) (map rr_trackId items)
               = filter (\<lambda>y. y \<noteq> track_id t) (filter ?P (map rr_trackId items))"
        by (auto intro: filter_cong)
      from Cons.IH [OF a b r]
      have ih: "seen' = map track_id ordered'" "set ordered' \<subseteq> set tracks"
        "seen' = (seen @ [track_id t]) @ firstOcc (filter (\<lambda>y. y \<noteq> track_id t) (filter ?P (map rr_trackId items)))"
        unfolding f by blast+
      have p: "?P (rr_trackId item)" using False t by force
      have "filter ?P (map rr_trackId (item # items)) = rr_trackId item # filter ?P (map rr_trackId items)"
        using p by simp
      then have "seen @ firstOcc (filter ?P (map rr_trackId (item # items)))
                 = (seen @ [track_id t]) @ firstOcc (filter (\<lambda>y. y \<noteq> track_id t) (filter ?P (map rr_trackId items)))"
        using t(2) by (simp add: firstOcc_filter)
      with ih show ?thesis by metis
    qed
  qed
qed

lemma reorder_shape:
  "\<exists>picked. reorderTracksByRerank tracks r
            = picked @ filter (\<lambda>t. track_id t \<notin> set (map rr_trackId r)) tracks
     \<and> set picked \<subseteq> set tracks
     \<and> map track_id picked
         = firstOcc (filter (\<lambda>i. i \<in> set (map track_id tracks)) (map rr_trackId r))"
proof -
  obtain ordered seen where l: "rerankLoop tracks r ([], []) = (ordered, seen)"
    by (cases "rerankLoop tracks r ([], [])") auto
  have "seen = map track_id ordered \<and> set ordered \<subseteq> set tracks
        \<and> seen = [] @ firstOcc (filter (\<lambda>i. i \<in> set (map track_id tracks) \<and> i \<notin> set [])
                                     (map rr_trackId r))"
    by (rule rerankLoop_spec [OF _ _ l]) simp_all
  then have s12: "seen = map track_id ordered" "set ordered \<subseteq> set tracks"
    and raw: "seen = [] @ firstOcc (filter (\<lambda>i. i \<in> set (map track_id tracks) \<and> i \<notin> set [])
                                     (map rr_trackId r))"
    by blast+
  from raw have s3:
    "seen = firstOcc (filter (\<lambda>i. i \<in> set (map track_id tracks)) (map rr_trackId r))"
    by simp
  note s = s12 s3
  have "filter (\<lambda>t. track_id t \<notin> set seen) tracks
        = filter (\<lambda>t. track_id t \<notin> set (map rr_trackId r)) tracks"
    by (rule filter_cong) (auto simp: s(3) set_firstOcc)
  then have "reorderTracksByRerank tracks r
             = ordered @ filter (\<lambda>t. track_id t \<notin> set (map rr_trackId r)) tracks"
    using l by (simp add: reorderTracksByRerank_def)
  moreover have "map track_id ordered
         = firstOcc (filter (\<lambda>i. i \<in> set (map track_id tracks)) (map rr_trackId r))"
    using s(1,3) by metis
  ultimately show ?thesis using s(2) by blast
qed

lemma reorder_mset:
  assumes d: "distinct (map track_id tracks)"
  shows "mset (reorderTracksByRerank tracks r) = mset tracks"
proof -
  from reorder_shape [of tracks r] obtain picked where
    p: "reorderTracksByRerank tracks r
          = picked @ filter (\<lambda>t. track_id t \<notin> set (map rr_trackId r)) tracks"
       "set picked \<subseteq> set tracks"
       "map track_id picked = firstOcc (filter (\<lambda>i. i \<in> set (map track_id tracks)) (map rr_trackId r))"
    by blast
  have dp: "distinct (map track_id picked)" by (simp add: p(3) distinct_firstOcc)
  then have dpk: "distinct picked" by (rule distinct_map [THEN iffD1, THEN conjunct1])
  have dt: "distinct tracks" using d by (rule distinct_map [THEN iffD1, THEN conjunct1])
  have inj: "inj_on track_id (set tracks)" using d by (simp add: distinct_map)
  have ids: "set (map track_id picked) = set (map rr_trackId r) \<inter> set (map track_id tracks)"
    by (auto simp: p(3) set_firstOcc)
  have "set picked = set (filter (\<lambda>t. track_id t \<in> set (map rr_trackId r)) tracks)"
  proof (intro set_eqI iffI)
    fix t assume "t \<in> set picked"
    then show "t \<in> set (filter (\<lambda>t. track_id t \<in> set (map rr_trackId r)) tracks)"
      using p(2) ids by auto
  next
    fix t assume "t \<in> set (filter (\<lambda>t. track_id t \<in> set (map rr_trackId r)) tracks)"
    then have t: "t \<in> set tracks" "track_id t \<in> set (map rr_trackId r)" by auto
    then have "track_id t \<in> set (map track_id picked)" using ids by auto
    then obtain t' where t': "t' \<in> set picked" "track_id t' = track_id t" by auto
    with p(2) t(1) inj have "t' = t" by (auto dest: inj_onD)
    with t' show "t \<in> set picked" by simp
  qed
  moreover have "distinct (filter (\<lambda>t. track_id t \<in> set (map rr_trackId r)) tracks)"
    using dt by simp
  ultimately have "mset picked = mset (filter (\<lambda>t. track_id t \<in> set (map rr_trackId r)) tracks)"
    using dpk set_eq_iff_mset_eq_distinct by blast
  then show ?thesis by (simp add: p(1))
qed

lemma reorder_threeTracks:
  "reorderTracksByRerank threeTracks rerankReply
   = [mkTrack ''t3'' ''C'' ''Rock'' None, mkTrack ''t1'' ''A'' ''Pop'' None,
      mkTrack ''t2'' ''B'' ''Pop'' None]"
  by (simp add: reorderTracksByRerank_def threeTracks_def rerankReply_def trackById_def
      mkTrack_def)

text \<open>
  The candidates are looked up in a map keyed by track id, so the function relies on
  the ids being pairwise distinct: of two candidates with one id only the last would
  be returned, once. The candidates are rows of the table \<^verbatim>\<open>tracks\<close>, whose primary key
  is the id, and the steps between the query and the reranker keep the ids distinct.
\<close>

lemma reorder_same_id:
  "reorderTracksByRerank sameIdTracks [\<lparr>rr_trackId = ''t1'', rr_score = 1\<rparr>]
     = [mkTrack ''t1'' ''B'' ''Rock'' None]"
  by (simp add: reorderTracksByRerank_def sameIdTracks_def trackById_def mkTrack_def)

lemma mset_insertBy: "mset (insertBy cmp x ys) = add_mset x (mset ys)"
  by (induction ys) auto

lemma mset_sortBy: "mset (sortBy cmp xs) = mset xs"
  by (induction xs) (auto simp: sortBy_def mset_insertBy)

lemma distinct_contextStep:
  "distinct (map track_id (contextStep context tracks)) = distinct (map track_id tracks)"
proof -
  have "mset (contextStep context tracks) = mset tracks"
    by (simp add: contextStep_def rankByContext_def mset_sortBy split: option.splits)
  then have "mset (map track_id (contextStep context tracks)) = mset (map track_id tracks)"
    by (metis mset_map)
  then show ?thesis by (rule mset_eq_imp_distinct_iff)
qed

lemma candidates_distinct:
  assumes "distinct (map track_id rows)"
  shows "distinct (map track_id
           (graphStep interestGraph (contextStep context (dislikedFilter profile rows))))"
proof -
  from assms have "distinct (map track_id (dislikedFilter profile rows))"
    by (simp add: dislikedFilter_def distinct_map_filter)
  then have "distinct (map track_id (contextStep context (dislikedFilter profile rows)))"
    by (simp add: distinct_contextStep)
  then show ?thesis
    by (simp add: graphStep_def applyInterestGraphFilters_def distinct_map_filter
        split: option.splits)
qed

text \<open>
  Claim C10. For every candidate list the code passes (rows of \<^verbatim>\<open>tracks\<close>, so with
  pairwise distinct track ids, which the disliked-genre filter, the context rerank and
  the interest-graph filter before the call keep distinct) and every rerank reply,
  \<^verbatim>\<open>reorderTracksByRerank\<close> returns a permutation of the candidates: first the candidates
  the reply names, in the order of their first mention (entries that name no candidate
  and repeated entries are ignored), then the candidates the reply does not name, in
  their original order. So the ML rerank step of \<^verbatim>\<open>personalizedRecommendations\<close> neither
  adds nor drops nor duplicates a track.
\<close>

theorem C10_rerank_permutation:
  "(distinct (map track_id tracks) \<longrightarrow>
     mset (reorderTracksByRerank tracks r) = mset tracks
     \<and> (\<exists>picked. reorderTracksByRerank tracks r
                   = picked @ filter (\<lambda>t. track_id t \<notin> set (map rr_trackId r)) tracks
           \<and> map track_id picked
               = firstOcc (filter (\<lambda>i. i \<in> set (map track_id tracks)) (map rr_trackId r)))
     \<and> mset (rerankStep tracks reranked) = mset tracks)
   \<and> (distinct (map track_id rows) \<longrightarrow>
        distinct (map track_id
           (graphStep interestGraph (contextStep context (dislikedFilter profile rows))))
        \<and> mset (rerankStep
                  (graphStep interestGraph (contextStep context (dislikedFilter profile rows)))
                  reranked)
            = mset (graphStep interestGraph (contextStep context (dislikedFilter profile rows))))"
proof (intro conjI impI)
  assume d: "distinct (map track_id tracks)"
  show "mset (rerankStep tracks reranked) = mset tracks"
    using reorder_mset [OF d] by (simp add: rerankStep_def split: option.splits)
  show "mset (reorderTracksByRerank tracks r) = mset tracks"
    using reorder_mset [OF d, of r] .
  from reorder_shape [of tracks r]
  show "\<exists>picked. reorderTracksByRerank tracks r
                   = picked @ filter (\<lambda>t. track_id t \<notin> set (map rr_trackId r)) tracks
           \<and> map track_id picked
               = firstOcc (filter (\<lambda>i. i \<in> set (map track_id tracks)) (map rr_trackId r))"
    by blast
next
  assume "distinct (map track_id rows)"
  then show d: "distinct (map track_id
           (graphStep interestGraph (contextStep context (dislikedFilter profile rows))))"
    by (rule candidates_distinct)
  show "mset (rerankStep
                  (graphStep interestGraph (contextStep context (dislikedFilter profile rows)))
                  reranked)
            = mset (graphStep interestGraph (contextStep context (dislikedFilter profile rows)))"
    using reorder_mset [OF d] by (simp add: rerankStep_def split: option.splits)
qed

theorem C10_rerank_permutation_witness:
  "distinct (map track_id threeTracks)
   \<and> reorderTracksByRerank threeTracks rerankReply
       = [mkTrack ''t3'' ''C'' ''Rock'' None, mkTrack ''t1'' ''A'' ''Pop'' None,
          mkTrack ''t2'' ''B'' ''Pop'' None]
   \<and> mset (reorderTracksByRerank threeTracks rerankReply) = mset threeTracks
   \<and> mset (rerankStep threeTracks (Some rerankReply)) = mset threeTracks
   \<and> distinct (map track_id (graphStep None (contextStep None
        (dislikedFilter \<lparr>externalUserId = ''u1'', preferredGenres = [''Pop''],
                         dislikedGenres = [''Rock''], profileEmbedding = None\<rparr> threeTracks))))"
proof -
  have d: "distinct (map track_id threeTracks)"
    by (simp add: threeTracks_def mkTrack_def)
  from C10_rerank_permutation [of threeTracks rerankReply "Some rerankReply" threeTracks None None
      "\<lparr>externalUserId = ''u1'', preferredGenres = [''Pop''],
        dislikedGenres = [''Rock''], profileEmbedding = None\<rparr>"] d
  show ?thesis using reorder_threeTracks by blast
qed

subsection \<open>The interest-graph avoid filter\<close>

lemma set_reorder: "set (reorderTracksByRerank tracks r) \<subseteq> set tracks"
  using reorder_shape [of tracks r] by auto

lemma set_rerankStep: "set (rerankStep tracks rr) \<subseteq> set tracks"
  using set_reorder by (auto simp: rerankStep_def split: option.splits)

lemma threshold_bounds: "AVOID_THRESHOLD \<le> 6 / 10" "AVOID_THRESHOLD \<le> 1"
proof -
  have "roundDouble (6 / 10) \<le> 6 / 10" by code_simp
  then show "AVOID_THRESHOLD \<le> 6 / 10" "AVOID_THRESHOLD \<le> 1"
    by (simp_all add: AVOID_THRESHOLD_def)
qed

lemma keptByGraph_below:
  assumes "keptByGraph g t"
  shows "(\<forall>a. map_of (avoidArtists g) (artist t) = Some a \<longrightarrow> a < 6 / 10)
     \<and> (\<forall>x. map_of (avoidGenres g) (genre t) = Some x \<longrightarrow> x < 6 / 10)"
  using assms threshold_bounds(1)
  by (auto simp: keptByGraph_def strongAvoid_def split: option.splits if_splits)

lemma personalized_embedding_kept:
  assumes "service_variant env = HeadSide"
    and "findOrCreateProfile (q_profile_second env) (q_profile_insert env) = Inr updated"
    and "profileEmbedding updated = Some e"
    and "fetchInterestGraph env = Inr (Some g)"
    and "personalizedRecommendations env profile limit context = Inr tracks"
  shows "\<forall>t \<in> set tracks. keptByGraph g t"
proof -
  from assms obtain rows where
    "tracks = rerankStep (graphStep (Some g) (contextStep context (dislikedFilter profile rows)))
               (ml_rerank env (map track_id (graphStep (Some g) (contextStep context (dislikedFilter profile rows)))))"
    by (auto simp: personalizedRecommendations_def andThen_def Let_def split: sum.splits)
  then have "set tracks \<subseteq> set (graphStep (Some g) (contextStep context (dislikedFilter profile rows)))"
    using set_rerankStep by simp
  then show ?thesis by (auto simp: graphStep_def applyInterestGraphFilters_def)
qed

lemma getRecommendations_miss:
  assumes "redis_get env s (cacheKey u (req_context req)) = Inr None"
    and "getRecommendations env s u req = (Inr resp, s')"
  shows "\<exists>tracks. candidateTracks env (limitOr20 (req_limit req)) (req_context req) = Inr tracks
           \<and> resp_tracks resp = slice0 (applyDiversityRules tracks) (limitOr20 (req_limit req))"
  using assms by (auto simp: getRecommendations_def Let_def split: sum.splits)

lemma get_fallback:
  "getRecommendations fallbackEnv emptySys ''u1'' \<lparr>req_context = None, req_limit = Some 20\<rparr>
   = (Inr \<lparr>resp_tracks = [avoided], resp_context = None, generatedAt = 0\<rparr>,
      emptySys\<lparr>cache := [(''recommendations:u1:undefined'',
                           \<lparr>resp_tracks = [avoided], resp_context = None, generatedAt = 0\<rparr>)]\<rparr>)"
  by (simp add: getRecommendations_def limitOr20_def cacheKey_def redis_get_def redis_set_def
      candidateTracks_def findOrCreateProfile_def andThen_def isColdStart_def
      personalizedRecommendations_def genreBasedRecommendations_def
      fallbackEnv_def quietEnv_def emptySys_def plainRow_def orEmpty_def
      applyDiversityRules_def getConsecutiveArtistCount_def MAX_SAME_ARTIST_CONSECUTIVE_def
      slice0_def Let_def)

lemma get_similarity:
  "getRecommendations similarityEnv emptySys ''u1'' \<lparr>req_context = None, req_limit = Some 20\<rparr>
   = (Inr \<lparr>resp_tracks = [allowed], resp_context = None, generatedAt = 0\<rparr>,
      emptySys\<lparr>cache := [(''recommendations:u1:undefined'',
                           \<lparr>resp_tracks = [allowed], resp_context = None, generatedAt = 0\<rparr>)]\<rparr>)"
  by (simp add: getRecommendations_def limitOr20_def cacheKey_def redis_get_def redis_set_def
      candidateTracks_def findOrCreateProfile_def andThen_def isColdStart_def
      personalizedRecommendations_def fetchInterestGraph_def getOrCompute_def
      graphStep_def contextStep_def dislikedFilter_def rerankStep_def
      applyInterestGraphFilters_def keptByGraph_def strongAvoid_def threshold_bounds
      similarityEnv_def embeddedRow_def avoidGraph_def avoided_def allowed_def mkTrack_def
      quietEnv_def emptySys_def plainRow_def orEmpty_def
      applyDiversityRules_def getConsecutiveArtistCount_def MAX_SAME_ARTIST_CONSECUTIVE_def
      slice0_def Let_def)

lemma get_incoming:
  "getRecommendations incomingEnv emptySys ''u1'' \<lparr>req_context = None, req_limit = Some 20\<rparr>
   = (Inr \<lparr>resp_tracks = [avoided, allowed], resp_context = None, generatedAt = 0\<rparr>,
      emptySys\<lparr>cache := [(''recommendations:u1:undefined'',
                           \<lparr>resp_tracks = [avoided, allowed], resp_context = None,
                            generatedAt = 0\<rparr>)]\<rparr>)"
  by (simp add: getRecommendations_def limitOr20_def cacheKey_def redis_get_def redis_set_def
      candidateTracks_def findOrCreateProfile_def andThen_def isColdStart_def
      personalizedRecommendations_def contextStep_def
      incomingEnv_def similarityEnv_def embeddedRow_def avoided_def allowed_def mkTrack_def
      quietEnv_def emptySys_def plainRow_def orEmpty_def
      applyDiversityRules_def getConsecutiveArtistCount_def MAX_SAME_ARTIST_CONSECUTIVE_def
      slice0_def Let_def)

text \<open>
  Claim C2, as stated, fails, in two ways, with the interest graph there and giving the
  artist of a returned track the avoid score 1. On the side \<^verbatim>\<open>HEAD\<close>, a returning user
  with preferred genres and no profile embedding is served by the personalized branch
  through its genre-based query, which applies no avoid filter. On the other side
  (\<^verbatim>\<open>recommendations.service.ts\<close>), there is no avoid filter at all: a returning user
  with an embedding gets the rows of the similarity search as they are.
\<close>

theorem C2_counterexample:
  "service_variant fallbackEnv = HeadSide
   \<and> findOrCreateProfile (q_profile_first fallbackEnv) (q_profile_insert fallbackEnv)
     = Inr \<lparr>externalUserId = ''u1'', preferredGenres = [''Pop''], dislikedGenres = [],
            profileEmbedding = None\<rparr>
   \<and> q_stats_total fallbackEnv = Inr 5
   \<and> \<not> isColdStart 5 \<lparr>externalUserId = ''u1'', preferredGenres = [''Pop''],
                        dislikedGenres = [], profileEmbedding = None\<rparr>
   \<and> fetchInterestGraph fallbackEnv = Inr (Some avoidGraph)
   \<and> getRecommendations fallbackEnv emptySys ''u1'' \<lparr>req_context = None, req_limit = Some 20\<rparr>
       = (Inr \<lparr>resp_tracks = [avoided], resp_context = None, generatedAt = 0\<rparr>,
          emptySys\<lparr>cache := [(''recommendations:u1:undefined'',
                               \<lparr>resp_tracks = [avoided], resp_context = None, generatedAt = 0\<rparr>)]\<rparr>)
   \<and> service_variant incomingEnv = IncomingSide
   \<and> q_stats_total incomingEnv = Inr 5
   \<and> findOrCreateProfile (q_profile_second incomingEnv) (q_profile_insert incomingEnv)
     = Inr \<lparr>externalUserId = ''u1'', preferredGenres = [''Pop''], dislikedGenres = [],
            profileEmbedding = Some [JNum 1]\<rparr>
   \<and> fetchInterestGraph incomingEnv = Inr (Some avoidGraph)
   \<and> getRecommendations incomingEnv emptySys ''u1'' \<lparr>req_context = None, req_limit = Some 20\<rparr>
       = (Inr \<lparr>resp_tracks = [avoided, allowed], resp_context = None, generatedAt = 0\<rparr>,
          emptySys\<lparr>cache := [(''recommendations:u1:undefined'',
                               \<lparr>resp_tracks = [avoided, allowed], resp_context = None,
                                generatedAt = 0\<rparr>)]\<rparr>)
   \<and> map_of (avoidArtists avoidGraph) (artist avoided) = Some 1
   \<and> (6 / 10 :: rat) \<le> 1"
  using get_fallback get_incoming
  by (simp add: findOrCreateProfile_def fallbackEnv_def incomingEnv_def similarityEnv_def
      embeddedRow_def quietEnv_def plainRow_def orEmpty_def
      isColdStart_def fetchInterestGraph_def getOrCompute_def andThen_def avoidGraph_def
      avoided_def mkTrack_def)

text \<open>
  Claim C2, amended: in the variant of \<^verbatim>\<open>RecommendationsService\<close> that has the
  interest-graph step (the side \<^verbatim>\<open>HEAD\<close> of \<^verbatim>\<open>unnamed/part_005\<close>), for every personalized
  request that is served on a cache miss through the branch with a profile embedding
  (the similarity search), with the interest graph switched on and available, no
  returned track has an artist or a genre whose avoid score in that graph is at least
  0.6. The variant without that step (\<^verbatim>\<open>recommendations.service.ts\<close>) filters nothing,
  and the genre-based fallback is not filtered in either variant.
\<close>

theorem C2_avoid_filter:
  assumes "service_variant env = HeadSide"
    and "redis_get env s (cacheKey u (req_context req)) = Inr None"
    and "findOrCreateProfile (q_profile_first env) (q_profile_insert env) = Inr profile"
    and "q_stats_total env = Inr n"
    and "\<not> isColdStart n profile"
    and "findOrCreateProfile (q_profile_second env) (q_profile_insert env) = Inr updated"
    and "profileEmbedding updated = Some e"
    and "fetchInterestGraph env = Inr (Some g)"
    and "getRecommendations env s u req = (Inr resp, s')"
  shows "\<forall>t \<in> set (resp_tracks resp).
           (\<forall>a. map_of (avoidArtists g) (artist t) = Some a \<longrightarrow> a < 6 / 10)
           \<and> (\<forall>x. map_of (avoidGenres g) (genre t) = Some x \<longrightarrow> x < 6 / 10)"
proof -
  from getRecommendations_miss [OF assms(2) assms(9)] obtain tracks where
    c: "candidateTracks env (limitOr20 (req_limit req)) (req_context req) = Inr tracks"
    and r: "resp_tracks resp = slice0 (applyDiversityRules tracks) (limitOr20 (req_limit req))"
    by blast
  from c assms(3,4,5) have
    "personalizedRecommendations env profile (limitOr20 (req_limit req)) (req_context req) = Inr tracks"
    by (simp add: candidateTracks_def andThen_def)
  from personalized_embedding_kept [OF assms(1,6,7,8) this]
  have "\<forall>t \<in> set tracks. keptByGraph g t" .
  moreover have "set (resp_tracks resp) \<subseteq> set tracks"
    using r set_slice0 set_applyDiversityRules by fastforce
  ultimately show ?thesis using keptByGraph_below by blast
qed


theorem C2_avoid_filter_witness:
  "service_variant similarityEnv = HeadSide
   \<and> redis_get similarityEnv emptySys
      (cacheKey ''u1'' (req_context \<lparr>req_context = None, req_limit = Some 20\<rparr>)) = Inr None
   \<and> findOrCreateProfile (q_profile_first similarityEnv) (q_profile_insert similarityEnv)
       = Inr \<lparr>externalUserId = ''u1'', preferredGenres = [''Pop''], dislikedGenres = [],
              profileEmbedding = None\<rparr>
   \<and> q_stats_total similarityEnv = Inr 5
   \<and> \<not> isColdStart 5 \<lparr>externalUserId = ''u1'', preferredGenres = [''Pop''],
                        dislikedGenres = [], profileEmbedding = None\<rparr>
   \<and> findOrCreateProfile (q_profile_second similarityEnv) (q_profile_insert similarityEnv)
       = Inr \<lparr>externalUserId = ''u1'', preferredGenres = [''Pop''], dislikedGenres = [],
              profileEmbedding = Some [JNum 1]\<rparr>
   \<and> fetchInterestGraph similarityEnv = Inr (Some avoidGraph)
   \<and> getRecommendations similarityEnv emptySys ''u1'' \<lparr>req_context = None, req_limit = Some 20\<rparr>
       = (Inr \<lparr>resp_tracks = [allowed], resp_context = None, generatedAt = 0\<rparr>,
          emptySys\<lparr>cache := [(''recommendations:u1:undefined'',
                               \<lparr>resp_tracks = [allowed], resp_context = None, generatedAt = 0\<rparr>)]\<rparr>)
   \<and> map_of (avoidArtists avoidGraph) (artist avoided) = Some 1
   \<and> avoided \<notin> set (resp_tracks \<lparr>resp_tracks = [allowed], resp_context = None, generatedAt = 0\<rparr>)"
proof -
  have h0: "service_variant similarityEnv = HeadSide"
    by (simp add: similarityEnv_def quietEnv_def)
  have h1: "redis_get similarityEnv emptySys
      (cacheKey ''u1'' (req_context \<lparr>req_context = None, req_limit = Some 20\<rparr>)) = Inr None"
    by (simp add: redis_get_def similarityEnv_def quietEnv_def emptySys_def)
  have h2: "findOrCreateProfile (q_profile_first similarityEnv) (q_profile_insert similarityEnv)
       = Inr \<lparr>externalUserId = ''u1'', preferredGenres = [''Pop''], dislikedGenres = [],
              profileEmbedding = None\<rparr>"
    by (simp add: findOrCreateProfile_def similarityEnv_def quietEnv_def plainRow_def orEmpty_def)
  have h3: "q_stats_total similarityEnv = Inr 5"
    by (simp add: similarityEnv_def quietEnv_def)
  have h4: "\<not> isColdStart 5 \<lparr>externalUserId = ''u1'', preferredGenres = [''Pop''],
                        dislikedGenres = [], profileEmbedding = None\<rparr>"
    by (simp add: isColdStart_def)
  have h5: "findOrCreateProfile (q_profile_second similarityEnv) (q_profile_insert similarityEnv)
       = Inr \<lparr>externalUserId = ''u1'', preferredGenres = [''Pop''], dislikedGenres = [],
              profileEmbedding = Some [JNum 1]\<rparr>"
    by (simp add: findOrCreateProfile_def similarityEnv_def quietEnv_def plainRow_def orEmpty_def
        embeddedRow_def)
  have h6: "profileEmbedding \<lparr>externalUserId = ''u1'', preferredGenres = [''Pop''],
              dislikedGenres = [], profileEmbedding = Some [JNum 1]\<rparr> = Some [JNum 1]"
    by simp
  have h7: "fetchInterestGraph similarityEnv = Inr (Some avoidGraph)"
    by (simp add: fetchInterestGraph_def getOrCompute_def andThen_def similarityEnv_def
        quietEnv_def)
  have m: "map_of (avoidArtists avoidGraph) (artist avoided) = Some 1"
    by (simp add: avoidGraph_def avoided_def mkTrack_def)
  from C2_avoid_filter [OF h0 h1 h2 h3 h4 h5 h6 h7 get_similarity] m
  have "avoided \<notin> set (resp_tracks \<lparr>resp_tracks = [allowed], resp_context = None,
                                      generatedAt = 0\<rparr>)"
    by fastforce
  with h0 h1 h2 h3 h4 h5 h7 m get_similarity show ?thesis by blast
qed

subsection \<open>The context reranker\<close>

text \<open>
  With the score its comparator computes, \<^verbatim>\<open>rankByContext\<close> is a stable sort by
  descending score: a permutation of the candidates, ordered by score, in which the
  tracks of one score keep their order.
\<close>

lemma insertBy_insort_key:
  "insertBy (\<lambda>a b. f b - f a) x ys = insort_key (\<lambda>t. - f t) x ys"
  by (induction ys) auto

lemma sortBy_sort_key: "sortBy (\<lambda>a b. f b - f a) xs = sort_key (\<lambda>t. - f t) xs"
proof -
  have "insertBy (\<lambda>a b. f b - f a) = insort_key (\<lambda>t. - f t)"
    by (intro ext) (rule insertBy_insort_key)
  then show ?thesis by (simp add: sortBy_def sort_key_def)
qed

lemma rankByContext_stable_sort:
  "mset (rankByContext tracks c) = mset tracks
   \<and> sorted_wrt (\<lambda>a b. contextScore c b \<le> contextScore c a) (rankByContext tracks c)
   \<and> filter (\<lambda>t. contextScore c t = v) (rankByContext tracks c)
       = filter (\<lambda>t. contextScore c t = v) tracks"
proof -
  have e: "rankByContext tracks c = sort_key (\<lambda>t. - contextScore c t) tracks"
    by (simp add: rankByContext_def sortBy_sort_key)
  have "sorted (map (\<lambda>t. - contextScore c t) (rankByContext tracks c))"
    unfolding e by (rule sorted_sort_key)
  then have s: "sorted_wrt (\<lambda>a b. contextScore c b \<le> contextScore c a) (rankByContext tracks c)"
    by (simp add: sorted_wrt_map)
  have "filter (\<lambda>t. - contextScore c t = - v) (sort_key (\<lambda>t. - contextScore c t) tracks)
        = filter (\<lambda>t. - contextScore c t = - v) tracks"
    by (rule sort_key_stable)
  then have st: "filter (\<lambda>t. contextScore c t = v) (rankByContext tracks c)
       = filter (\<lambda>t. contextScore c t = v) tracks"
    by (simp add: e)
  from s st show ?thesis by (simp add: e)
qed


text \<open>
  Claim C4 does not hold of the code. The comparator guards every contribution with the
  truthiness of the feature, so a feature that is present with the value 0 contributes
  nothing, also to the terms \<open>1 - feature\<close>: under the mood CALM a track of energy 0
  scores 0 where the claim gives it 10, and it is ranked behind a track of energy 1/2
  instead of in front of it.
\<close>

theorem C4_zero_feature:
  "contextScore calmContext silent = 0
   \<and> specScore calmContext silent = 10
   \<and> contextScore calmContext medium = 5
   \<and> specScore calmContext medium = 5
   \<and> rankByContext [silent, medium] calmContext = [medium, silent]
   \<and> specRank [silent, medium] calmContext = [silent, medium]"
  by (simp add: contextScore_def specScore_def contribution_def specContribution_def
      featureOf_def rankByContext_def specRank_def sortBy_def calmContext_def silent_def
      medium_def mkTrack_def fadd_def fsub_def fmul_def roundDouble_values)


subsection \<open>The interest graph\<close>

text \<open>
  What does hold of the four maps \<^verbatim>\<open>compute\<close> emits: each has at most 20 entries, no
  value exceeds 1, and an avoid map holds values in [0, 1] under keys whose accumulated
  score is negative.
\<close>

lemma length_objSet: "length (objSet m k v) \<le> Suc (length m)"
  by (induction m) auto

lemma set_objSet: "set (objSet m k v) \<subseteq> insert (k, v) (set m)"
  by (induction m) (auto split: if_splits)

lemma fill_length:
  "length (foldl (\<lambda>out (key, val). objSet out key (g val)) acc xs) \<le> length acc + length xs"
proof (induction xs arbitrary: acc)
  case Nil
  show ?case by simp
next
  case (Cons x xs)
  obtain key val where x: "x = (key, val)" by (cases x)
  have "length (foldl (\<lambda>out (key, val). objSet out key (g val)) (objSet acc key (g val)) xs)
        \<le> length (objSet acc key (g val)) + length xs" by (rule Cons.IH)
  also have "\<dots> \<le> Suc (length acc) + length xs" using length_objSet [of acc key "g val"] by simp
  finally show ?case using x by simp
qed

lemma fill_set:
  "set (foldl (\<lambda>out (key, val). objSet out key (g val)) acc xs)
   \<subseteq> set acc \<union> (\<lambda>(key, val). (key, g val)) ` set xs"
proof (induction xs arbitrary: acc)
  case Nil
  show ?case by simp
next
  case (Cons x xs)
  obtain key val where x: "x = (key, val)" by (cases x)
  have "set (foldl (\<lambda>out (key, val). objSet out key (g val)) (objSet acc key (g val)) xs)
        \<subseteq> set (objSet acc key (g val)) \<union> (\<lambda>(key, val). (key, g val)) ` set xs" by (rule Cons.IH)
  with set_objSet [of acc key "g val"] x show ?case by auto
qed

lemma normalizeTop_length: "length (normalizeTop m k) \<le> k"
proof -
  have "length (normalizeTop m k) \<le> length ([] :: (string \<times> rat) list) + length (take k (sortBy (\<lambda>a b. snd b - snd a) m))"
    unfolding normalizeTop_def Let_def by (rule fill_length)
  then show ?thesis by simp
qed

lemma foldl_max_ge: "(a::rat) \<le> foldl max a xs"
  by (induction xs arbitrary: a) (auto intro: order_trans [OF max.cobounded1])

lemma foldl_max_mem: "x \<in> set xs \<Longrightarrow> (x::rat) \<le> foldl max a xs"
proof (induction xs arbitrary: a)
  case Nil
  then show ?case by simp
next
  case (Cons y ys)
  then show ?case
    using foldl_max_ge [of "max a y" ys] by (auto intro: order_trans [OF max.cobounded2])
qed

lemma maxOf_ge: "x \<in> set vs \<Longrightarrow> x \<le> maxOf vs"
  by (cases vs) (auto simp: maxOf_def foldl_max_ge foldl_max_mem)

lemma toFixed4_unit:
  assumes "0 \<le> x" and "x \<le> 1"
  shows "0 \<le> toFixed4 x \<and> toFixed4 x \<le> 1"
proof -
  have "(0::int) \<le> \<lfloor>x * 10000 + 1 / 2\<rfloor>" using assms(1) by (simp add: le_floor_iff)
  moreover have "\<lfloor>x * 10000 + 1 / 2\<rfloor> \<le> (10000::int)"
  proof -
    have "x * 10000 + 1 / 2 < 10001" using assms(2) by simp
    then have "\<lfloor>x * 10000 + 1 / 2\<rfloor> < (10001::int)" by (simp add: floor_less_iff)
    then show ?thesis by simp
  qed
  ultimately have "0 \<le> rat_of_int \<lfloor>x * 10000 + 1 / 2\<rfloor> / 10000"
    and "rat_of_int \<lfloor>x * 10000 + 1 / 2\<rfloor> / 10000 \<le> 1" by simp_all
  then have "0 \<le> roundDouble (rat_of_int \<lfloor>x * 10000 + 1 / 2\<rfloor> / 10000)"
    and "roundDouble (rat_of_int \<lfloor>x * 10000 + 1 / 2\<rfloor> / 10000) \<le> 1"
    by (simp_all add: roundDouble_nonneg roundDouble_le_1)
  then show ?thesis using assms(1) by (simp add: toFixed4_def)
qed

lemma toFixed4_le_1:
  assumes "x \<le> 1"
  shows "toFixed4 x \<le> 1"
proof (cases "0 \<le> x")
  case True
  with assms toFixed4_unit show ?thesis by blast
next
  case False
  define n where "n = \<lfloor>- x * 10000 + 1 / 2\<rfloor>"
  have "0 \<le> - x * 10000 + 1 / 2" using False by simp
  then have "0 \<le> n" unfolding n_def by (simp only: zero_le_floor)
  then have "- (rat_of_int n / 10000) \<le> 1" by simp
  then have "roundDouble (- (rat_of_int n / 10000)) \<le> 1" by (rule roundDouble_le_1)
  moreover have "x < 0" using False by simp
  then have "toFixed4 x = roundDouble (- (rat_of_int n / 10000))"
    unfolding toFixed4_def n_def by simp
  ultimately show ?thesis by simp
qed

lemma normalizeTop_values:
  assumes "(key, val) \<in> set (normalizeTop m k)"
  shows "val \<le> 1 \<and> ((\<forall>(a, v) \<in> set m. 0 \<le> v) \<longrightarrow> 0 \<le> val)"
proof -
  let ?sorted = "take k (sortBy (\<lambda>a b. snd b - snd a) m)"
  let ?mx = "maxOf (map snd ?sorted)"
  let ?g = "\<lambda>v. if ?mx \<le> 0 then 0 else toFixed4 (fdiv v ?mx)"
  have "set (normalizeTop m k) \<subseteq> set [] \<union> (\<lambda>(key, val). (key, ?g val)) ` set ?sorted"
    unfolding normalizeTop_def Let_def by (rule fill_set)
  with assms obtain v where v: "(key, v) \<in> set ?sorted" "val = ?g v" by auto
  have le: "v \<le> ?mx" using v(1) by (intro maxOf_ge) force
  have "set ?sorted \<subseteq> set (sortBy (\<lambda>a b. snd b - snd a) m)" by (rule set_take_subset)
  also have "\<dots> = set (sort_key (\<lambda>t. - snd t) m)" by (simp add: sortBy_sort_key)
  also have "\<dots> = set m" by simp
  finally have mem: "(key, v) \<in> set m" using v(1) by blast
  show ?thesis
  proof (cases "?mx \<le> 0")
    case True
    with v(2) show ?thesis by simp
  next
    case False
    then have pos: "0 < ?mx" by simp
    then have "v / ?mx \<le> 1" using le by (simp add: divide_le_eq)
    then have q: "fdiv v ?mx \<le> 1" unfolding fdiv_def by (rule roundDouble_le_1)
    then have a: "val \<le> 1" using v(2) False toFixed4_le_1 by simp
    have b: "(\<forall>(a, v) \<in> set m. 0 \<le> v) \<longrightarrow> 0 \<le> val"
    proof
      assume "\<forall>(a, v) \<in> set m. 0 \<le> v"
      with mem have "0 \<le> v" by auto
      then have "0 \<le> v / ?mx" using pos by simp
      then have "0 \<le> fdiv v ?mx" unfolding fdiv_def by (rule roundDouble_nonneg)
      with q toFixed4_unit have "0 \<le> toFixed4 (fdiv v ?mx)" by blast
      with v(2) False show "0 \<le> val" by simp
    qed
    from a b show ?thesis by blast
  qed
qed

lemma normalizeTop_keys:
  assumes "(key, val) \<in> set (normalizeTop m k)"
  shows "\<exists>v. (key, v) \<in> set m"
proof -
  let ?sorted = "take k (sortBy (\<lambda>a b. snd b - snd a) m)"
  let ?mx = "maxOf (map snd ?sorted)"
  let ?g = "\<lambda>v. if ?mx \<le> 0 then 0 else toFixed4 (fdiv v ?mx)"
  have "set (normalizeTop m k) \<subseteq> set [] \<union> (\<lambda>(key, val). (key, ?g val)) ` set ?sorted"
    unfolding normalizeTop_def Let_def by (rule fill_set)
  with assms obtain v where v: "(key, v) \<in> set ?sorted" by auto
  have "set ?sorted \<subseteq> set (sortBy (\<lambda>a b. snd b - snd a) m)" by (rule set_take_subset)
  also have "\<dots> = set (sort_key (\<lambda>t. - snd t) m)" by (simp add: sortBy_sort_key)
  also have "\<dots> = set m" by simp
  finally show ?thesis using v by blast
qed

lemma negatives_mem:
  "(key, v) \<in> set (negatives m) \<Longrightarrow> 0 \<le> v \<and> (\<exists>raw. (key, raw) \<in> set m \<and> raw < 0)"
  by (auto simp: negatives_def)

lemma avoid_map_sound:
  assumes "(key, val) \<in> set (normalizeTop (negatives m) k)"
  shows "0 \<le> val \<and> val \<le> 1 \<and> (\<exists>raw. (key, raw) \<in> set m \<and> raw < 0)"
proof -
  have "\<forall>(a, v) \<in> set (negatives m). 0 \<le> v" using negatives_mem by blast
  with normalizeTop_values [OF assms] have "0 \<le> val \<and> val \<le> 1" by blast
  moreover from normalizeTop_keys [OF assms] negatives_mem
  have "\<exists>raw. (key, raw) \<in> set m \<and> raw < 0" by blast
  ultimately show ?thesis by blast
qed

lemma compute_maps:
  assumes "compute rows = Some g"
  shows "length (topArtists g) \<le> 20 \<and> length (topGenres g) \<le> 20
         \<and> length (avoidArtists g) \<le> 20 \<and> length (avoidGenres g) \<le> 20"
    and "(key, val) \<in> set (topArtists g) \<union> set (topGenres g) \<Longrightarrow> val \<le> 1"
    and "(key, val) \<in> set (avoidArtists g) \<Longrightarrow>
           0 \<le> val \<and> val \<le> 1
           \<and> (\<exists>raw. (key, raw) \<in> set (fst (accumulate ([], []) rows)) \<and> raw < 0)"
    and "(key, val) \<in> set (avoidGenres g) \<Longrightarrow>
           0 \<le> val \<and> val \<le> 1
           \<and> (\<exists>raw. (key, raw) \<in> set (snd (accumulate ([], []) rows)) \<and> raw < 0)"
proof -
  obtain artistScore genreScore where acc: "accumulate ([], []) rows = (artistScore, genreScore)"
    by (cases "accumulate ([], []) rows") auto
  with assms have g: "topArtists g = normalizeTop artistScore 20"
    "topGenres g = normalizeTop genreScore 20"
    "avoidArtists g = normalizeTop (negatives artistScore) 20"
    "avoidGenres g = normalizeTop (negatives genreScore) 20"
    by (auto simp: compute_def split: if_splits)
  show "length (topArtists g) \<le> 20 \<and> length (topGenres g) \<le> 20
         \<and> length (avoidArtists g) \<le> 20 \<and> length (avoidGenres g) \<le> 20"
    by (simp add: g normalizeTop_length)
  show "(key, val) \<in> set (topArtists g) \<union> set (topGenres g) \<Longrightarrow> val \<le> 1"
    using normalizeTop_values by (auto simp: g)
  show "(key, val) \<in> set (avoidArtists g) \<Longrightarrow>
           0 \<le> val \<and> val \<le> 1
           \<and> (\<exists>raw. (key, raw) \<in> set (fst (accumulate ([], []) rows)) \<and> raw < 0)"
    using avoid_map_sound [of key val artistScore 20] by (simp add: g acc)
  show "(key, val) \<in> set (avoidGenres g) \<Longrightarrow>
           0 \<le> val \<and> val \<le> 1
           \<and> (\<exists>raw. (key, raw) \<in> set (snd (accumulate ([], []) rows)) \<and> raw < 0)"
    using avoid_map_sound [of key val genreScore 20] by (simp add: g acc)
qed


lemma floor_numeral_div:
  "\<lfloor>(numeral a :: rat) / numeral b\<rfloor> = numeral a div numeral b"
  using floor_divide_of_int_eq [of "numeral a" "numeral b", where ?'a = rat] by simp


text \<open>
  Claim C6 does not hold of the code. \<^verbatim>\<open>normalizeTop\<close> divides every score by the
  largest one, so in the maps \<^verbatim>\<open>topArtists\<close> and \<^verbatim>\<open>topGenres\<close>, which keep the entries
  with a negative score, such an entry gets a negative value whenever another entry is
  positive: after one LIKE of artist A and one SKIP of artist B the value of B is -0.5.
\<close>

theorem C6_negative_top_value:
  "compute mixedRows
     = Some \<lparr>ig_version = 1, generatedBy = ''heuristic'', windowDays = 90,
             topArtists = [(''Artist A'', 1), (''Artist B'', - (1 / 2))],
             topGenres = [(''rock'', 1), (''pop'', - (1 / 2))],
             avoidArtists = [(''Artist B'', 1)], avoidGenres = [(''pop'', 1)]\<rparr>
   \<and> map_of [(''Artist A'', 1), (''Artist B'', - (1 / 2 :: rat))] ''Artist B'' = Some (- (1 / 2))
   \<and> (- (1 / 2) :: rat) < 0"
  by (simp add: compute_def mixedRows_def addScore_def getOr0_def normalizeTop_def sortBy_def
      maxOf_def toFixed4_def fdiv_def roundDouble_values goesBefore_def arrayIndex_def
      isDigit_def negatives_def Let_def floor_numeral_div)


subsection \<open>The push gateway\<close>

lemma invalidate_frame:
  "invalidateCache env s u = Inr s' \<Longrightarrow>
     emitted s' = emitted s \<and> gateway_log s' = gateway_log s \<and> refresh_calls s' = refresh_calls s
     \<and> interactions s' = interactions s"
  by (auto simp: invalidateCache_def flushPrefix_def split: if_splits)

lemma getRecommendations_frame:
  "getRecommendations env s u req = (res, s') \<Longrightarrow>
     emitted s' = emitted s \<and> gateway_log s' = gateway_log s \<and> refresh_calls s' = refresh_calls s
     \<and> interactions s' = interactions s"
  by (auto simp: getRecommendations_def redis_set_def Let_def split: sum.splits option.splits if_splits)

lemma refreshBody_fail:
  "refreshBody env s u r = (Inl e, s') \<Longrightarrow>
     emitted s' = emitted s \<and> gateway_log s' = gateway_log s \<and> refresh_calls s' = refresh_calls s
     \<and> interactions s' = interactions s"
  by (auto simp: refreshBody_def split: sum.splits prod.splits if_splits
      dest!: invalidate_frame getRecommendations_frame)

lemma refreshBody_ok:
  "refreshBody env s u r = (Inr x, s') \<Longrightarrow>
     (\<exists>tracks. emitted s' = emitted s @ [(''user:'' @ u, \<lparr>ev_tracks = tracks, ev_reason = r\<rparr>)])
     \<and> gateway_log s' = gateway_log s @ [SentRefresh u r] \<and> refresh_calls s' = refresh_calls s
     \<and> interactions s' = interactions s"
  by (auto simp: refreshBody_def split: sum.splits prod.splits if_splits
      dest!: invalidate_frame getRecommendations_frame)


text \<open>
  Claim C7. \<^verbatim>\<open>triggerRecommendationRefresh\<close> never hands an error to its caller: for
  every user id, reason, state and environment (whatever the cache flush, the pipeline
  or the emit throws) it returns normally. When a step throws, nothing is emitted, so
  the sessions stay silent, and the one trace of the failure is the error line
  in the log; when no step throws, one update with the given reason is emitted to the
  user's room.
\<close>

theorem C7_trigger_never_throws:
  "fst (triggerRecommendationRefresh env s u r) = Inr ()
   \<and> (\<forall>e s1. refreshBody env (s\<lparr>refresh_calls := refresh_calls s @ [(u, r)]\<rparr>) u r = (Inl e, s1) \<longrightarrow>
         emitted (snd (triggerRecommendationRefresh env s u r)) = emitted s
         \<and> gateway_log (snd (triggerRecommendationRefresh env s u r))
             = gateway_log s @ [FailedRefresh u e])
   \<and> (\<forall>x s1. refreshBody env (s\<lparr>refresh_calls := refresh_calls s @ [(u, r)]\<rparr>) u r = (Inr x, s1) \<longrightarrow>
         (\<exists>tracks. emitted (snd (triggerRecommendationRefresh env s u r))
             = emitted s @ [(''user:'' @ u, \<lparr>ev_tracks = tracks, ev_reason = r\<rparr>)])
         \<and> gateway_log (snd (triggerRecommendationRefresh env s u r))
             = gateway_log s @ [SentRefresh u r])"
proof -
  let ?s0 = "s\<lparr>refresh_calls := refresh_calls s @ [(u, r)]\<rparr>"
  obtain res s1 where b: "refreshBody env ?s0 u r = (res, s1)"
    by (cases "refreshBody env ?s0 u r") auto
  show ?thesis
  proof (cases res)
    case (Inl e)
    with b refreshBody_fail [of env ?s0 u r e s1] show ?thesis
      by (simp add: triggerRecommendationRefresh_def Let_def)
  next
    case (Inr x)
    with b refreshBody_ok [of env ?s0 u r x s1] show ?thesis
      by (simp add: triggerRecommendationRefresh_def Let_def)
  qed
qed

theorem C7_trigger_never_throws_witness:
  "refreshBody flushDownEnv
      (emptySys\<lparr>refresh_calls := refresh_calls emptySys @ [(''u1'', manual_refresh)]\<rparr>)
      ''u1'' manual_refresh
     = (Inl RedisError, emptySys\<lparr>refresh_calls := [(''u1'', manual_refresh)]\<rparr>)
   \<and> fst (triggerRecommendationRefresh flushDownEnv emptySys ''u1'' manual_refresh) = Inr ()
   \<and> emitted (snd (triggerRecommendationRefresh flushDownEnv emptySys ''u1'' manual_refresh))
       = emitted emptySys
   \<and> gateway_log (snd (triggerRecommendationRefresh flushDownEnv emptySys ''u1'' manual_refresh))
       = gateway_log emptySys @ [FailedRefresh ''u1'' RedisError]"
proof -
  have b: "refreshBody flushDownEnv
      (emptySys\<lparr>refresh_calls := refresh_calls emptySys @ [(''u1'', manual_refresh)]\<rparr>)
      ''u1'' manual_refresh
     = (Inl RedisError, emptySys\<lparr>refresh_calls := [(''u1'', manual_refresh)]\<rparr>)"
    by (simp add: refreshBody_def invalidateCache_def flushPrefix_def flushDownEnv_def
        quietEnv_def emptySys_def)
  from C7_trigger_never_throws [of flushDownEnv emptySys "''u1''" manual_refresh] b
  show ?thesis by blast
qed


subsection \<open>The skip burst\<close>















subsection \<open>The cache key\<close>




text \<open>
  The service itself serializes the context as it is: were it handed the empty object,
  the key would end in \<^verbatim>\<open>{}\<close> and not in \<^verbatim>\<open>undefined\<close>. Its two callers never do that:
  the gateway passes no context, and the controller passes none unless a context
  parameter is non-empty.
\<close>

lemma cacheKey_empty_object:
  "cacheKey u (Some emptyContext) = ''recommendations:'' @ u @ '':{}''"
  by (simp add: cacheKey_def stringifyContext_def jsonField_def emptyContext_def)




subsection \<open>The limit\<close>

lemma parseInt10_100: "parseInt10 ''100'' = Some 100"
  by (simp add: parseInt10_def trimStart_def isWs_def isDigit_def digitsValue_def digitVal_def)

lemma parseInt10_7: "parseInt10 ''7'' = Some 7"
  by (simp add: parseInt10_def trimStart_def isWs_def isDigit_def digitsValue_def digitVal_def)

lemma schema_limit:
  assumes "RecommendationRequestSchema c l = Inr req"
  shows "\<exists>n. limitSchema l = Inr n \<and> req_limit req = Some n"
  using assms by (auto simp: RecommendationRequestSchema_def andThen_def split: sum.splits)

lemma limitSchema_range: "limitSchema l = Inr n \<Longrightarrow> 1 \<le> n \<and> n \<le> 50"
  by (auto simp: limitSchema_def split: RawLimit.splits if_splits)

lemma schema_limit_error:
  "limitSchema l = Inl e \<Longrightarrow> RecommendationRequestSchema c l = Inl ZodError"
  by (auto simp: RecommendationRequestSchema_def InteractionContextSchema_def optionalEnum_def
      limitSchema_def andThen_def split: sum.splits option.splits RawLimit.splits if_splits)

lemma getRecommendations_miss_length:
  assumes "redis_get env s (cacheKey u (req_context req)) = Inr None"
    and "getRecommendations env s u req = (Inr resp, s')"
    and "0 \<le> limitOr20 (req_limit req)"
  shows "int (length (resp_tracks resp)) \<le> limitOr20 (req_limit req)"
proof -
  from assms(1,2) obtain tracks where
    "resp_tracks resp = slice0 (applyDiversityRules tracks) (limitOr20 (req_limit req))"
    by (auto simp: getRecommendations_def Let_def split: sum.splits)
  with assms(3) show ?thesis by (simp add: length_slice0)
qed


text \<open>
  Claim C8, as stated, fails: a limit out of range is not clamped. The request schema
  refuses it and the request fails with the validation error before the pipeline runs.
\<close>

theorem C8_counterexample:
  "parseInt10 ''100'' = Some 100
   \<and> getRecommendationsController quietEnv emptySys ''u1'' None None None (Some ''100'')
       = (Inl ZodError, emptySys)"
  by (simp add: getRecommendationsController_def RecommendationRequestSchema_def
      requestContext_def requestLimit_def truthyParam_def limitSchema_def andThen_def
      parseInt10_100)


text \<open>
  Claim C8, amended: for every \<^verbatim>\<open>GET /recommendations\<close> request, when no limit is
  supplied (the parameter is absent or empty) the pipeline runs with limit 20; when the
  supplied limit parses to an integer in [1, 50] the pipeline runs with that value; a
  supplied limit that is not a number or lies outside [1, 50] fails the request with a
  validation error, and the state is untouched. A request that passes the schema runs
  the pipeline with a limit in [1, 50], and on a cache miss the returned list is no
  longer than that limit.
\<close>

theorem C8_limit:
  "(\<not> truthyParam l \<longrightarrow> limitSchema (requestLimit l) = Inr 20)
   \<and> (l = Some x \<and> x \<noteq> [] \<and> parseInt10 x = Some n \<and> 1 \<le> n \<and> n \<le> 50 \<longrightarrow>
        limitSchema (requestLimit l) = Inr n)
   \<and> (l = Some x \<and> x \<noteq> [] \<and> (parseInt10 x = None \<or> parseInt10 x = Some n \<and> (n < 1 \<or> 50 < n)) \<longrightarrow>
        getRecommendationsController env s u m a b l = (Inl ZodError, s))
   \<and> (RecommendationRequestSchema (requestContext m a b) (requestLimit l) = Inr req \<longrightarrow>
        (\<exists>k. limitSchema (requestLimit l) = Inr k \<and> req_limit req = Some k
              \<and> limitOr20 (req_limit req) = k \<and> 1 \<le> k \<and> k \<le> 50)
        \<and> getRecommendationsController env s u m a b l = getRecommendations env s u req)
   \<and> (RecommendationRequestSchema (requestContext m a b) (requestLimit l) = Inr req
       \<and> redis_get env s (cacheKey u (req_context req)) = Inr None
       \<and> getRecommendationsController env s u m a b l = (Inr resp, s') \<longrightarrow>
        int (length (resp_tracks resp)) \<le> limitOr20 (req_limit req))"
proof (intro conjI impI)
  assume "\<not> truthyParam l"
  then show "limitSchema (requestLimit l) = Inr 20"
    by (auto simp: truthyParam_def requestLimit_def limitSchema_def split: option.splits)
next
  assume "l = Some x \<and> x \<noteq> [] \<and> parseInt10 x = Some n \<and> 1 \<le> n \<and> n \<le> 50"
  then show "limitSchema (requestLimit l) = Inr n"
    by (simp add: requestLimit_def limitSchema_def)
next
  assume "l = Some x \<and> x \<noteq> [] \<and> (parseInt10 x = None \<or> parseInt10 x = Some n \<and> (n < 1 \<or> 50 < n))"
  then have "limitSchema (requestLimit l) = Inl ZodError"
    by (auto simp: requestLimit_def limitSchema_def)
  then have "RecommendationRequestSchema (requestContext m a b) (requestLimit l) = Inl ZodError"
    by (rule schema_limit_error)
  then show "getRecommendationsController env s u m a b l = (Inl ZodError, s)"
    by (simp add: getRecommendationsController_def)
next
  assume r: "RecommendationRequestSchema (requestContext m a b) (requestLimit l) = Inr req"
  from schema_limit [OF r] obtain k where
    k: "limitSchema (requestLimit l) = Inr k" "req_limit req = Some k" by blast
  from limitSchema_range [OF k(1)] have rg: "1 \<le> k \<and> k \<le> 50" .
  then have "limitOr20 (req_limit req) = k" using k(2) by (simp add: limitOr20_def)
  with k rg show "\<exists>k. limitSchema (requestLimit l) = Inr k \<and> req_limit req = Some k
              \<and> limitOr20 (req_limit req) = k \<and> 1 \<le> k \<and> k \<le> 50" by blast
  from r show "getRecommendationsController env s u m a b l = getRecommendations env s u req"
    by (simp add: getRecommendationsController_def)
next
  assume h: "RecommendationRequestSchema (requestContext m a b) (requestLimit l) = Inr req
       \<and> redis_get env s (cacheKey u (req_context req)) = Inr None
       \<and> getRecommendationsController env s u m a b l = (Inr resp, s')"
  then have g: "getRecommendations env s u req = (Inr resp, s')"
    by (auto simp: getRecommendationsController_def)
  from h schema_limit [of "requestContext m a b" "requestLimit l" req] obtain k where
    k: "limitSchema (requestLimit l) = Inr k" "req_limit req = Some k" by blast
  from limitSchema_range [OF k(1)] k(2) have "0 \<le> limitOr20 (req_limit req)"
    by (simp add: limitOr20_def)
  with h g show "int (length (resp_tracks resp)) \<le> limitOr20 (req_limit req)"
    using getRecommendations_miss_length [of env s u req resp s'] by blast
qed

theorem C8_limit_witness:
  "\<not> truthyParam None
   \<and> limitSchema (requestLimit None) = Inr 20
   \<and> parseInt10 ''7'' = Some 7
   \<and> limitSchema (requestLimit (Some ''7'')) = Inr 7
   \<and> parseInt10 ''100'' = Some 100
   \<and> getRecommendationsController quietEnv emptySys ''u1'' None None None (Some ''100'')
       = (Inl ZodError, emptySys)
   \<and> RecommendationRequestSchema (requestContext None None None) (requestLimit (Some ''7''))
       = Inr \<lparr>req_context = None, req_limit = Some 7\<rparr>
   \<and> redis_get quietEnv emptySys
        (cacheKey ''u1'' (req_context \<lparr>req_context = None, req_limit = Some 7\<rparr>)) = Inr None
   \<and> fst (getRecommendationsController quietEnv emptySys ''u1'' None None None (Some ''7''))
       = Inr \<lparr>resp_tracks = [], resp_context = None, generatedAt = 0\<rparr>
   \<and> int (length (resp_tracks \<lparr>resp_tracks = [], resp_context = None, generatedAt = 0\<rparr>))
       \<le> limitOr20 (req_limit \<lparr>req_context = None, req_limit = Some 7\<rparr>)"
proof -
  let ?req = "\<lparr>req_context = None, req_limit = Some 7\<rparr>"
  let ?resp = "\<lparr>resp_tracks = [], resp_context = None, generatedAt = 0\<rparr>"
  let ?out = "getRecommendationsController quietEnv emptySys ''u1'' None None None (Some ''7'')"
  have t: "\<not> truthyParam None" by (simp add: truthyParam_def)
  have r: "RecommendationRequestSchema (requestContext None None None) (requestLimit (Some ''7''))
       = Inr ?req"
    by (simp add: RecommendationRequestSchema_def requestContext_def requestLimit_def
        truthyParam_def limitSchema_def andThen_def parseInt10_7)
  have m: "redis_get quietEnv emptySys (cacheKey ''u1'' (req_context ?req)) = Inr None"
    by (simp add: redis_get_def quietEnv_def emptySys_def)
  have f: "fst ?out = Inr ?resp"
    by (simp add: getRecommendationsController_def r getRecommendations_def limitOr20_def
        cacheKey_def redis_get_def redis_set_def candidateTracks_def findOrCreateProfile_def
        andThen_def isColdStart_def coldStartRecommendations_def quietEnv_def emptySys_def
        plainRow_def orEmpty_def applyDiversityRules_def slice0_def Let_def)
  then have o: "?out = (Inr ?resp, snd ?out)" by (metis prod.collapse)
  note th = C8_limit [of _ _ _ quietEnv emptySys "''u1''" None None None ?req ?resp "snd ?out"]
  from th [of None "''7''" 7] t have a: "limitSchema (requestLimit None) = Inr 20" by blast
  from th [of "Some ''7''" "''7''" 7] parseInt10_7
  have b: "limitSchema (requestLimit (Some ''7'')) = Inr 7" by simp
  from th [of "Some ''100''" "''100''" 100] parseInt10_100
  have c: "getRecommendationsController quietEnv emptySys ''u1'' None None None (Some ''100'')
       = (Inl ZodError, emptySys)" by simp
  from th [of "Some ''7''" "''7''" 7] r m o
  have d: "int (length (resp_tracks ?resp)) \<le> limitOr20 (req_limit ?req)" by blast
  from t a b c d r m f parseInt10_7 parseInt10_100 show ?thesis by blast
qed


subsection \<open>The profile embedding\<close>

lemma toDouble_values:
  "toDouble 0 = JNum 0" "toDouble 1 = JNum 1" "toDouble 2 = JNum 2" "toDouble 3 = JNum 3"
  "toDouble (1 / 2) = JNum (1 / 2)" "toDouble (- (1 / 4)) = JNum (- (1 / 4))"
proof -
  have r: "roundDouble (- (1 / 4)) = - (1 / 4)" by code_simp
  show "toDouble 0 = JNum 0" by (simp add: toDouble_def roundDouble_def)
  show "toDouble 1 = JNum 1" "toDouble 2 = JNum 2" "toDouble 3 = JNum 3"
    "toDouble (1 / 2) = JNum (1 / 2)" "toDouble (- (1 / 4)) = JNum (- (1 / 4))"
    by (simp_all add: toDouble_def roundDouble_values r)
qed

lemmas scan_defs = scanDecimal_def parseFloat_def trimStart_def isDigit_def
  digitsValue_def digitVal_def exponentPart_def pow10_def Let_def

lemma vectorParts_123: "vectorParts ''1,2,3'' = [JNum 1, JNum 2, JNum 3]"
  by (simp add: trim_def isWs_def vectorParts_def scan_defs toDouble_values)

lemma parseVector_123: "parseVector (DbString ''[1,2,3]'') = Some [JNum 1, JNum 2, JNum 3]"
  by (simp add: stripOpen_def stripClose_def trim_def isWs_def vectorParts_123)

lemma inner_123: "stripClose (stripOpen (trim ''[1,2,3]'')) = ''1,2,3''"
  by (simp add: stripOpen_def stripClose_def trim_def isWs_def)

lemma parseVector_string:
  assumes "parseVector (DbString x) = Some xs"
  shows "xs = filter isFinite (vectorParts (stripClose (stripOpen (trim x))))"
    and "xs \<noteq> []" and "list_all isFinite xs"
    and "length xs \<le> length (splitOn (CHR '','') (stripClose (stripOpen (trim x))))"
proof -
  from assms show e: "xs = filter isFinite (vectorParts (stripClose (stripOpen (trim x))))"
    by (auto simp: Let_def split: if_splits)
  from assms show "xs \<noteq> []" by (auto simp: Let_def split: if_splits)
  from e show "list_all isFinite xs" by (simp add: list_all_iff)
  have "length (filter isFinite (vectorParts (stripClose (stripOpen (trim x)))))
        \<le> length (vectorParts (stripClose (stripOpen (trim x))))" by (rule length_filter_le)
  with e show "length xs \<le> length (splitOn (CHR '','') (stripClose (stripOpen (trim x))))"
    by (simp add: vectorParts_def)
qed

lemma parseVector_all_finite:
  assumes "parseVector (DbString x) = Some xs"
    and "list_all isFinite (vectorParts (stripClose (stripOpen (trim x))))"
  shows "length xs = length (splitOn (CHR '','') (stripClose (stripOpen (trim x))))"
proof -
  from parseVector_string(1) [OF assms(1)] assms(2)
  have "xs = vectorParts (stripClose (stripOpen (trim x)))"
    by (simp add: list_all_iff)
  then show ?thesis by (simp add: vectorParts_def)
qed

lemma splitOn_no_sep: "c \<notin> set x \<Longrightarrow> splitOn c x = [x]"
  by (induction x) auto

lemma splitOn_append: "c \<notin> set x \<Longrightarrow> splitOn c (x @ c # rest) = x # splitOn c rest"
  by (induction x) auto

lemma splitOn_join:
  "comps \<noteq> [] \<Longrightarrow> \<forall>x \<in> set comps. CHR '','' \<notin> set x \<Longrightarrow>
     splitOn (CHR '','') (joinWith '','' comps) = comps"
proof (induction "'',''" comps rule: joinWith.induct)
  case 1
  then show ?case by simp
next
  case (2 x)
  then show ?case by (simp add: splitOn_no_sep)
next
  case (3 x y ys)
  then show ?case using splitOn_append [of "CHR '',''" x "joinWith '','' (y # ys)"] by simp
qed

lemma trim_id: "x \<noteq> [] \<Longrightarrow> \<not> isWs (hd x) \<Longrightarrow> \<not> isWs (last x) \<Longrightarrow> trim x = x"
proof -
  assume a: "x \<noteq> []" "\<not> isWs (hd x)" "\<not> isWs (last x)"
  then have "dropWhile isWs x = x" by (cases x) auto
  moreover from a have "dropWhile isWs (rev x) = rev x"
    by (cases "rev x") (auto simp: hd_rev [symmetric] simp del: hd_rev)
  ultimately show ?thesis by (simp add: trim_def)
qed

lemma inner_vectorText:
  "stripClose (stripOpen (trim (vectorText comps))) = joinWith '','' comps"
proof -
  have "trim (vectorText comps) = vectorText comps"
    by (rule trim_id) (simp_all add: vectorText_def isWs_def)
  then show ?thesis by (simp add: vectorText_def stripOpen_def stripClose_def)
qed

lemma float4Text_parse:
  assumes "float4Text c"
  shows "parseFloat (trim c) = parseFloat c" and "isFinite (parseFloat c)"
    and "CHR '','' \<notin> set c" and "c \<noteq> []"
proof -
  from assms have ne: "c \<noteq> []" and all: "list_all (\<lambda>ch. ch \<noteq> CHR '','' \<and> \<not> isWs ch) c"
    and fin: "isFinite (fst (scanDecimal c))"
    by (auto simp: float4Text_def split: prod.splits)
  from ne all have "\<not> isWs (hd c)" "\<not> isWs (last c)"
    by (auto simp: list_all_iff)
  with ne have t: "trim c = c" by (simp add: trim_id)
  from ne \<open>\<not> isWs (hd c)\<close> have s: "trimStart c = c" by (cases c) (auto simp: trimStart_def)
  show "parseFloat (trim c) = parseFloat c" by (simp add: t)
  show "isFinite (parseFloat c)" using fin by (simp add: parseFloat_def s)
  show "CHR '','' \<notin> set c" using all by (auto simp: list_all_iff)
  show "c \<noteq> []" by (rule ne)
qed

lemma joinWith_nonempty: "comps \<noteq> [] \<Longrightarrow> \<forall>x \<in> set comps. x \<noteq> [] \<Longrightarrow> joinWith sep comps \<noteq> []"
  by (induction sep comps rule: joinWith.induct) auto

lemma parseVector_vectorText:
  assumes "comps \<noteq> []" and "list_all float4Text comps"
  shows "parseVector (DbString (vectorText comps)) = Some (map parseFloat comps)"
proof -
  from assms(2) have c: "\<forall>x \<in> set comps. CHR '','' \<notin> set x" and n: "\<forall>x \<in> set comps. x \<noteq> []"
    and t: "\<forall>x \<in> set comps. parseFloat (trim x) = parseFloat x"
    and f: "\<forall>x \<in> set comps. isFinite (parseFloat x)"
    using float4Text_parse by (auto simp: list_all_iff)
  have i: "joinWith '','' comps \<noteq> []" using assms(1) n by (rule joinWith_nonempty)
  have "vectorParts (joinWith '','' comps) = map parseFloat comps"
    using t by (simp add: vectorParts_def splitOn_join [OF assms(1) c])
  moreover have "filter isFinite (map parseFloat comps) = map parseFloat comps"
    using f by (simp add: filter_map o_def)
  moreover have "vectorText comps \<noteq> []" by (simp add: vectorText_def)
  ultimately show ?thesis using i assms(1)
    by (simp add: inner_vectorText Let_def)
qed


lemma parseVector_numbers:
  "list_all finiteNumber vs \<Longrightarrow>
     parseVector (DbArray vs) = Some (map toNumber vs) \<and> list_all isFinite (map toNumber vs)"
proof -
  assume a: "list_all finiteNumber vs"
  have "\<And>v. finiteNumber v \<Longrightarrow> isFinite (toNumber v)"
  proof -
    fix v assume "finiteNumber v" then show "isFinite (toNumber v)" by (cases v) auto
  qed
  with a show ?thesis by (auto simp: list_all_iff)
qed

lemma stored_embedding_valid:
  assumes "v = DbNull
           \<or> (v = DbString (vectorText comps) \<and> length comps = 256 \<and> list_all float4Text comps)
           \<or> (v = DbArray vs \<and> length vs = 256 \<and> list_all finiteNumber vs)"
  shows "parseVector v = None
         \<or> (\<exists>xs. parseVector v = Some xs \<and> length xs = 256 \<and> list_all isFinite xs)"
proof -
  consider (isnull) "v = DbNull"
    | (astext) "v = DbString (vectorText comps)" "length comps = 256" "list_all float4Text comps"
    | (asarray) "v = DbArray vs" "length vs = 256" "list_all finiteNumber vs"
    using assms by blast
  then show ?thesis
  proof cases
    case isnull
    then show ?thesis by simp
  next
    case astext
    from astext(2) have ne: "comps \<noteq> []" by auto
    from astext(3) have "list_all isFinite (map parseFloat comps)"
      using float4Text_parse(2) by (auto simp: list_all_iff)
    with parseVector_vectorText [OF ne astext(3)] astext(1,2) show ?thesis by simp
  next
    case asarray
    with parseVector_numbers [OF asarray(3)] show ?thesis by simp
  qed
qed

lemma float4Text_half: "float4Text ''0.5'' \<and> parseFloat ''0.5'' = JNum (1 / 2)"
  by (simp add: float4Text_def isWs_def scan_defs toDouble_values)

lemma float4Text_exp: "float4Text ''-2.5e-01'' \<and> parseFloat ''-2.5e-01'' = JNum (- (1 / 4))"
  by (simp add: float4Text_def isWs_def scan_defs toDouble_values)

lemma float4Text_zero: "float4Text ''0'' \<and> parseFloat ''0'' = JNum 0"
  by (simp add: float4Text_def isWs_def scan_defs toDouble_values)


text \<open>
  Claim C9. For every stored profile row (the column \<^verbatim>\<open>profile_embedding\<close> holds
  \<^verbatim>\<open>null\<close> or a vector of 256 finite components, handed over as its text or as an array
  of numbers), \<^verbatim>\<open>findOrCreateProfile\<close> and \<^verbatim>\<open>updatePreferences\<close> return a profile whose
  \<^verbatim>\<open>profileEmbedding\<close> is either absent or a list of exactly 256 finite numbers: absent
  for \<^verbatim>\<open>null\<close>, the 256 parsed components otherwise. A profile that was just created
  has none. Whatever text the column holds, an embedding parsed from it is not empty
  and has finite entries only, at most one for each comma-separated part.
\<close>

theorem C9_profile_embedding:
  assumes "profile_embedding row = DbNull
           \<or> (profile_embedding row = DbString (vectorText comps) \<and> length comps = 256
              \<and> list_all float4Text comps)
           \<or> (profile_embedding row = DbArray vs \<and> length vs = 256 \<and> list_all finiteNumber vs)"
  shows "(\<exists>p. findOrCreateProfile (Inr (Some row)) inserted = Inr p
            \<and> updatePreferences (Inr (Some row)) selected inserted = Inr p
            \<and> updatePreferences (Inr None) (Inr (Some row)) inserted = Inr p
            \<and> profileEmbedding p = parseVector (profile_embedding row)
            \<and> (profileEmbedding p = None
               \<or> (\<exists>xs. profileEmbedding p = Some xs \<and> length xs = 256 \<and> list_all isFinite xs)))
         \<and> (profile_embedding row = DbNull \<longrightarrow> parseVector (profile_embedding row) = None)
         \<and> (profile_embedding row = DbString (vectorText comps) \<and> length comps = 256
            \<and> list_all float4Text comps \<longrightarrow>
              parseVector (profile_embedding row) = Some (map parseFloat comps))
         \<and> (profile_embedding row = DbArray vs \<and> length vs = 256 \<and> list_all finiteNumber vs \<longrightarrow>
              parseVector (profile_embedding row) = Some (map toNumber vs))
         \<and> (findOrCreateProfile (Inr None) (Inr row) = Inr p' \<longrightarrow> profileEmbedding p' = None)
         \<and> (parseVector (DbString x) = Some xs \<longrightarrow>
              xs \<noteq> [] \<and> list_all isFinite xs
              \<and> xs = filter isFinite (vectorParts (stripClose (stripOpen (trim x))))
              \<and> length xs \<le> length (splitOn (CHR '','') (stripClose (stripOpen (trim x)))))"
proof (intro conjI impI)
  let ?p = "\<lparr>externalUserId = external_user_id row,
             preferredGenres = orEmpty (preferred_genres row),
             dislikedGenres = orEmpty (disliked_genres row),
             profileEmbedding = parseVector (profile_embedding row)\<rparr>"
  have "findOrCreateProfile (Inr (Some row)) inserted = Inr ?p"
    and "updatePreferences (Inr (Some row)) selected inserted = Inr ?p"
    and "updatePreferences (Inr None) (Inr (Some row)) inserted = Inr ?p"
    by (simp_all add: findOrCreateProfile_def updatePreferences_def)
  moreover have "profileEmbedding ?p = parseVector (profile_embedding row)" by simp
  moreover from stored_embedding_valid [OF assms]
  have "profileEmbedding ?p = None
        \<or> (\<exists>xs. profileEmbedding ?p = Some xs \<and> length xs = 256 \<and> list_all isFinite xs)"
    by simp
  ultimately show "\<exists>p. findOrCreateProfile (Inr (Some row)) inserted = Inr p
            \<and> updatePreferences (Inr (Some row)) selected inserted = Inr p
            \<and> updatePreferences (Inr None) (Inr (Some row)) inserted = Inr p
            \<and> profileEmbedding p = parseVector (profile_embedding row)
            \<and> (profileEmbedding p = None
               \<or> (\<exists>xs. profileEmbedding p = Some xs \<and> length xs = 256 \<and> list_all isFinite xs))"
    by blast
next
  assume "profile_embedding row = DbNull"
  then show "parseVector (profile_embedding row) = None" by simp
next
  assume a: "profile_embedding row = DbString (vectorText comps) \<and> length comps = 256
            \<and> list_all float4Text comps"
  then have "comps \<noteq> []" by auto
  with a parseVector_vectorText [of comps]
  show "parseVector (profile_embedding row) = Some (map parseFloat comps)" by simp
next
  assume "profile_embedding row = DbArray vs \<and> length vs = 256 \<and> list_all finiteNumber vs"
  then show "parseVector (profile_embedding row) = Some (map toNumber vs)" by simp
next
  assume "findOrCreateProfile (Inr None) (Inr row) = Inr p'"
  then show "profileEmbedding p' = None" by (auto simp: findOrCreateProfile_def)
next
  assume a: "parseVector (DbString x) = Some xs"
  from parseVector_string [OF a]
  show "xs \<noteq> []" and "list_all isFinite xs"
    and "xs = filter isFinite (vectorParts (stripClose (stripOpen (trim x))))"
    and "length xs \<le> length (splitOn (CHR '','') (stripClose (stripOpen (trim x))))"
    by blast+
qed

theorem C9_profile_embedding_witness:
  "profile_embedding storedRow = DbString (vectorText storedComponents)
   \<and> length storedComponents = 256
   \<and> list_all float4Text storedComponents
   \<and> findOrCreateProfile (Inr (Some storedRow)) (Inr plainRow)
       = Inr \<lparr>externalUserId = ''u1'', preferredGenres = [''Pop''], dislikedGenres = [],
              profileEmbedding
                = Some (JNum (1 / 2) # JNum (- (1 / 4)) # replicate 254 (JNum 0))\<rparr>
   \<and> length (JNum (1 / 2) # JNum (- (1 / 4)) # replicate 254 (JNum 0)) = 256
   \<and> list_all isFinite (JNum (1 / 2) # JNum (- (1 / 4)) # replicate 254 (JNum 0))"
proof -
  have h: "profile_embedding storedRow = DbString (vectorText storedComponents)
           \<and> length storedComponents = 256 \<and> list_all float4Text storedComponents"
    using float4Text_half float4Text_exp float4Text_zero
    by (simp add: storedRow_def storedComponents_def list_all_iff)
  have m: "map parseFloat storedComponents
           = JNum (1 / 2) # JNum (- (1 / 4)) # replicate 254 (JNum 0)"
    using float4Text_half float4Text_exp float4Text_zero
    by (simp add: storedComponents_def)
  from C9_profile_embedding [of storedRow storedComponents "[]" "Inr plainRow"] h m
  have "parseVector (profile_embedding storedRow)
        = Some (JNum (1 / 2) # JNum (- (1 / 4)) # replicate 254 (JNum 0))"
    by simp
  then have "findOrCreateProfile (Inr (Some storedRow)) (Inr plainRow)
       = Inr \<lparr>externalUserId = ''u1'', preferredGenres = [''Pop''], dislikedGenres = [],
              profileEmbedding
                = Some (JNum (1 / 2) # JNum (- (1 / 4)) # replicate 254 (JNum 0))\<rparr>"
    by (simp add: findOrCreateProfile_def storedRow_def plainRow_def orEmpty_def)
  with h show ?thesis by (simp add: list_all_iff)
qed


end
